theory Spec2Isabelle
  imports Main "HOL-Library.Word"
begin

section \<open>Shared declarations\<close>

text \<open>
  The metadata server (coordinator, \<^verbatim>\<open>mserver.c\<close>) and the key-value server
  (\<^verbatim>\<open>server.c\<close>) share the header \<^verbatim>\<open>defs.h\<close>, which is not among the source
  files. Its enumerations are taken from the names the two programs use; its three
  placement functions are modelled from the specification.
\<close>

datatype kv_server_state =
    KV_SERVER_ONLINE
  | KV_UPDATING_PRIMARY
  | KV_UPDATING_SECONDARY
  | KV_SWITCHING_PRIMARY
  | KV_SERVER_FAILED
  | KV_SERVER_RECON

datatype server_ctrlreq_type =
  SET_SECONDARY | UPDATE_PRIMARY | UPDATE_SECONDARY | SWITCH_PRIMARY | SHUTDOWN

datatype ctrlreq_status = CTRLREQ_SUCCESS | CTRLREQ_FAILURE

text \<open>A request type read from the wire that is none of the named ones is \<open>MSERVER_OTHER\<close>.\<close>

datatype mserver_ctrlreq_type =
    HEARTBEAT
  | UPDATED_PRIMARY
  | UPDATE_PRIMARY_FAILED
  | UPDATED_SECONDARY
  | UPDATE_SECONDARY_FAILED
  | MSERVER_OTHER nat

record mserver_ctrl_request =
  mreq_type :: mserver_ctrlreq_type
  mreq_server_id :: nat

text \<open>
  Modelled from the spec: \<^verbatim>\<open>key_server_id\<close>, \<^verbatim>\<open>secondary_server_id\<close> and
  \<^verbatim>\<open>primary_server_id\<close> of \<^verbatim>\<open>defs.h\<close> are missing from the sources. The spec gives
  \<open>owner(key) = H(key) mod N\<close>, \<open>secondary(i) = (i + 1) mod N\<close> and
  \<open>primary_of(i) = (i - 1 + N) mod N\<close>. The hash \<open>H\<close> is a parameter. Server ids are
  natural numbers, so \<open>i - 1 + N\<close> is written \<open>i + N - 1\<close>.
\<close>

definition key_server_id :: "(string \<Rightarrow> nat) \<Rightarrow> string \<Rightarrow> nat \<Rightarrow> nat" where
  "key_server_id H key n = H key mod n"

definition secondary_server_id :: "nat \<Rightarrow> nat \<Rightarrow> nat" where
  "secondary_server_id server_id n = (server_id + 1) mod n"

definition primary_server_id :: "nat \<Rightarrow> nat \<Rightarrow> nat" where
  "primary_server_id server_id n = (server_id + n - 1) mod n"

text \<open>
  Both programs cut a leading \<^verbatim>\<open>user@\<close> off a configured host name:
  \<^verbatim>\<open>at = strchr(h, '@'); host = (at == NULL) ? h : (at + 1)\<close>.
\<close>

definition host_of :: "string \<Rightarrow> string" where
  "host_of h = (case dropWhile (\<lambda>c. c \<noteq> CHR ''@'') h of [] \<Rightarrow> h | _ # rest \<Rightarrow> rest)"

section \<open>The metadata server\<close>

subsection \<open>State\<close>

text \<open>
  \<^verbatim>\<open>struct _server_node\<close>, without the socket descriptors and the process id: what a
  call on a socket or a spawned process yields is an input of the handler that makes it.
\<close>

record server_node =
  host_name :: string
  sport :: "16 word"
  cport :: "16 word"
  mport :: "16 word"
  sid :: nat
  last_heartbeat :: int
  server_status :: kv_server_state
  updated_primary_accepted :: bool
  updated_secondary_accepted :: bool
  ignore_put :: bool

text \<open>A control request written to a server's outbound socket: target, type, host, port.\<close>

datatype ctrl_msg = Ctrl_msg nat server_ctrlreq_type string "16 word"

text \<open>
  The globals of \<^verbatim>\<open>mserver.c\<close> that the handlers read and write. \<open>sent\<close> lists, oldest
  first, the requests handed to \<^verbatim>\<open>send_msg\<close> on the servers' control sockets.
\<close>

record mserver =
  server_timeout :: int
  num_servers :: nat
  server_nodes :: "server_node list"
  sent :: "ctrl_msg list"

text \<open>
  What a control request meets: the descriptor is not valid (\<^verbatim>\<open>fd_is_valid\<close> fails),
  sending or receiving fails, or the server replies with a status.
\<close>

datatype ctrl_outcome = Fd_invalid | Io_failed | Replied ctrlreq_status

subsection \<open>Command line\<close>

text \<open>One option as \<^verbatim>\<open>getopt\<close> yields it; numeric arguments are what \<^verbatim>\<open>atoi\<close> returns.\<close>

datatype mserver_opt =
    Opt_c int
  | Opt_s int
  | Opt_l string
  | Opt_C string
  | Opt_t int
  | Opt_invalid char

record mserver_args =
  clients_port :: "16 word"
  servers_port :: "16 word"
  cfg_file_name :: string
  log_file_name :: string
  arg_server_timeout :: int

definition default_server_timeout :: int where
  "default_server_timeout = 3"

definition initial_args :: mserver_args where
  "initial_args = \<lparr>clients_port = 0, servers_port = 0, cfg_file_name = [],
     log_file_name = [], arg_server_timeout = 0\<rparr>"

text \<open>The \<^verbatim>\<open>getopt\<close> loop: \<open>None\<close> is the \<^verbatim>\<open>return false\<close> of the default case.\<close>

fun parse_opts :: "mserver_opt list \<Rightarrow> mserver_args \<Rightarrow> mserver_args option" where
  "parse_opts [] a = Some a"
| "parse_opts (Opt_c v # os) a = parse_opts os (a\<lparr>clients_port := word_of_int v\<rparr>)"
| "parse_opts (Opt_s v # os) a = parse_opts os (a\<lparr>servers_port := word_of_int v\<rparr>)"
| "parse_opts (Opt_l f # os) a = parse_opts os (a\<lparr>log_file_name := f\<rparr>)"
| "parse_opts (Opt_C f # os) a = parse_opts os (a\<lparr>cfg_file_name := f\<rparr>)"
| "parse_opts (Opt_t v # os) a = parse_opts os (a\<lparr>arg_server_timeout := v\<rparr>)"
| "parse_opts (Opt_invalid c # os) a = None"

definition parse_args :: "mserver_opt list \<Rightarrow> mserver_args option" where
  "parse_args os =
     (case parse_opts os initial_args of
        None \<Rightarrow> None
      | Some a \<Rightarrow>
          (let a' = a\<lparr>arg_server_timeout :=
                     (if arg_server_timeout a \<noteq> 0 then arg_server_timeout a
                      else default_server_timeout)\<rparr>
           in if clients_port a' \<noteq> 0 \<and> servers_port a' \<noteq> 0 \<and> cfg_file_name a' \<noteq> []
              then Some a' else None))"

subsection \<open>Control requests\<close>

definition node_upd :: "nat \<Rightarrow> (server_node \<Rightarrow> server_node) \<Rightarrow> mserver \<Rightarrow> mserver" where
  "node_upd i f st = st\<lparr>server_nodes := (server_nodes st)[i := f (server_nodes st ! i)]\<rparr>"

text \<open>
  \<^verbatim>\<open>send_set_secondary\<close>: the request names the secondary of \<open>sid\<close>; there is no
  descriptor check, so an invalid descriptor is a failed send.
\<close>

definition send_set_secondary :: "nat \<Rightarrow> ctrl_outcome \<Rightarrow> mserver \<Rightarrow> bool \<times> mserver" where
  "send_set_secondary sid' out st =
     (let secondary_node = server_nodes st ! secondary_server_id sid' (num_servers st);
          msg = Ctrl_msg sid' SET_SECONDARY (host_of (host_name secondary_node))
                  (sport secondary_node);
          st' = st\<lparr>sent := sent st @ [msg]\<rparr>
      in case out of
           Replied s \<Rightarrow> (s = CTRLREQ_SUCCESS, st')
         | _ \<Rightarrow> (False, st'))"

text \<open>
  \<^verbatim>\<open>send_request\<close>: host and port of \<open>sid2\<close> are filled in unless the request is
  \<^verbatim>\<open>SWITCH_PRIMARY\<close>; nothing is sent when the descriptor is not valid.
\<close>

definition send_request ::
  "nat \<Rightarrow> nat \<Rightarrow> server_ctrlreq_type \<Rightarrow> ctrl_outcome \<Rightarrow> mserver \<Rightarrow> bool \<times> mserver" where
  "send_request sid' sid2 ctrlreq_type out st =
     (let secondary_node = server_nodes st ! sid2;
          msg = (if ctrlreq_type \<noteq> SWITCH_PRIMARY
                 then Ctrl_msg sid' ctrlreq_type (host_of (host_name secondary_node))
                        (sport secondary_node)
                 else Ctrl_msg sid' ctrlreq_type [] 0);
          st' = st\<lparr>sent := sent st @ [msg]\<rparr>
      in case out of
           Fd_invalid \<Rightarrow> (False, st)
         | Io_failed \<Rightarrow> (False, st')
         | Replied s \<Rightarrow> (s = CTRLREQ_SUCCESS, st'))"

subsection \<open>Locate requests\<close>

record locate_response =
  resp_host :: string
  resp_port :: "16 word"

text \<open>
  The server a key is routed to (\<^verbatim>\<open>server_id\<close> in \<^verbatim>\<open>process_client_message\<close>): the
  key's owner, or the owner's secondary when the owner is not online.
\<close>

definition locate_server_id :: "(string \<Rightarrow> nat) \<Rightarrow> string \<Rightarrow> mserver \<Rightarrow> nat" where
  "locate_server_id H key st =
     (let server_id = key_server_id H key (num_servers st)
      in if server_status (server_nodes st ! server_id) \<noteq> KV_SERVER_ONLINE
         then secondary_server_id server_id (num_servers st)
         else server_id)"

text \<open>
  \<^verbatim>\<open>process_client_message\<close> of the metadata server. The request is \<open>None\<close> when
  \<^verbatim>\<open>recv_msg\<close> fails; the result is the response sent, \<open>None\<close> when the function
  returns without one. The handler changes no global.
\<close>

definition process_client_message ::
  "(string \<Rightarrow> nat) \<Rightarrow> string option \<Rightarrow> mserver \<Rightarrow> locate_response option" where
  "process_client_message H request st =
     (case request of
        None \<Rightarrow> None
      | Some key \<Rightarrow>
          (let server_id = locate_server_id H key st
           in if ignore_put (server_nodes st ! server_id) then None
              else Some \<lparr>resp_host = host_of (host_name (server_nodes st ! server_id)),
                         resp_port = cport (server_nodes st ! server_id)\<rparr>))"

subsection \<open>Server messages and the switch\<close>

definition handle_switch_primary ::
  "nat \<Rightarrow> nat \<Rightarrow> ctrl_outcome \<Rightarrow> ctrl_outcome \<Rightarrow> mserver \<Rightarrow> mserver" where
  "handle_switch_primary Saa Sb out_switch out_set st =
     (let st1 = node_upd Saa (\<lambda>n. n\<lparr>ignore_put := True\<rparr>) st;
          st2 = node_upd Sb (\<lambda>n. n\<lparr>ignore_put := True\<rparr>) st1;
          st3 = snd (send_request Sb Saa SWITCH_PRIMARY out_switch st2);
          (ok, st4) = send_set_secondary Saa out_set st3
      in if \<not> ok then st4
         else
           (let st5 = node_upd Saa (\<lambda>n. n\<lparr>ignore_put := False\<rparr>) st4;
                st6 = node_upd Sb (\<lambda>n. n\<lparr>ignore_put := False\<rparr>) st5
            in node_upd Saa (\<lambda>n. n\<lparr>server_status := KV_SERVER_ONLINE\<rparr>) st6))"

text \<open>
  What one call of \<^verbatim>\<open>process_server_message\<close> reads from outside: the clock, and the
  outcomes of the two requests of the switch.
\<close>

record msg_env =
  env_time :: int
  env_switch :: ctrl_outcome
  env_set_secondary :: ctrl_outcome

text \<open>
  \<^verbatim>\<open>process_server_message\<close> of the metadata server. The request is \<open>None\<close> when
  \<^verbatim>\<open>recv_msg\<close> fails. The boolean is the return value: \<open>False\<close> closes the connection.
\<close>

definition process_server_message ::
  "mserver_ctrl_request option \<Rightarrow> msg_env \<Rightarrow> mserver \<Rightarrow> bool \<times> mserver" where
  "process_server_message request env st =
     (case request of
        None \<Rightarrow> (False, st)
      | Some r \<Rightarrow>
          (case mreq_type r of
             HEARTBEAT \<Rightarrow>
               (True, node_upd (mreq_server_id r) (\<lambda>n. n\<lparr>last_heartbeat := env_time env\<rparr>) st)
           | UPDATED_PRIMARY \<Rightarrow>
               (let Sb = mreq_server_id r;
                    Saa = primary_server_id Sb (num_servers st);
                    st1 = node_upd Saa (\<lambda>n. n\<lparr>updated_primary_accepted := True\<rparr>) st
                in if updated_primary_accepted (server_nodes st1 ! Saa) \<and>
                      updated_secondary_accepted (server_nodes st1 ! Saa)
                   then (True, handle_switch_primary Saa Sb (env_switch env)
                                 (env_set_secondary env) st1)
                   else (True, st1))
           | UPDATE_PRIMARY_FAILED \<Rightarrow> (True, st)
           | UPDATED_SECONDARY \<Rightarrow>
               (let Sc = mreq_server_id r;
                    Saa = secondary_server_id Sc (num_servers st);
                    Sb = secondary_server_id Saa (num_servers st);
                    st1 = node_upd Saa (\<lambda>n. n\<lparr>updated_secondary_accepted := True\<rparr>) st
                in if updated_primary_accepted (server_nodes st1 ! Saa) \<and>
                      updated_secondary_accepted (server_nodes st1 ! Saa)
                   then (True, handle_switch_primary Saa Sb (env_switch env)
                                 (env_set_secondary env) st1)
                   else (True, st1))
           | UPDATE_SECONDARY_FAILED \<Rightarrow> (True, st)
           | MSERVER_OTHER t \<Rightarrow> (False, st)))"

subsection \<open>Failure detection\<close>

definition heartbeat_check_diff :: int where
  "heartbeat_check_diff = 2"

text \<open>
  The test of the detection loop:
  \<^verbatim>\<open>node->last_heartbeat && difftime(time(NULL), node->last_heartbeat) > heartbeat_check_diff\<close>.
  Times are whole seconds, so the difference of the two is exact.
\<close>

definition heartbeat_check_failed :: "int \<Rightarrow> server_node \<Rightarrow> bool" where
  "heartbeat_check_failed now node =
     (last_heartbeat node \<noteq> 0 \<and> now - last_heartbeat node > heartbeat_check_diff)"

text \<open>
  What one iteration of the detection loop reads from outside: the clock at the test,
  whether \<^verbatim>\<open>spawn_server\<close> succeeds, the clock after the spawn, and the outcomes of the
  two update requests.
\<close>

record tick_env =
  now_check :: int
  spawn_ok :: bool
  now_spawned :: int
  out_update_primary :: ctrl_outcome
  out_update_secondary :: ctrl_outcome

text \<open>
  The body of the detection loop for node \<open>i\<close>. A failed spawn leaves the node marked
  failed and goes on to the next node. Host name and ports are saved before the spawn
  and written back after it, which leaves them as they are.
\<close>

definition check_node :: "nat \<Rightarrow> tick_env \<Rightarrow> mserver \<Rightarrow> mserver" where
  "check_node i env st =
     (if heartbeat_check_failed (now_check env) (server_nodes st ! i) then
        (let st1 = node_upd i (\<lambda>n. n\<lparr>server_status := KV_SERVER_FAILED\<rparr>) st;
             Saa = i
         in if \<not> spawn_ok env then st1
            else
              (let st2 = node_upd Saa (\<lambda>n. n\<lparr>last_heartbeat := now_spawned env,
                                              server_status := KV_SERVER_RECON,
                                              updated_primary_accepted := False,
                                              updated_secondary_accepted := False,
                                              ignore_put := False\<rparr>) st1;
                   Sb = secondary_server_id Saa (num_servers st2);
                   st3 = snd (send_request Sb Saa UPDATE_PRIMARY (out_update_primary env) st2);
                   Sc = primary_server_id Saa (num_servers st3)
               in snd (send_request Sc Saa UPDATE_SECONDARY (out_update_secondary env) st3)))
      else st)"

primrec check_nodes :: "nat list \<Rightarrow> (nat \<Rightarrow> tick_env) \<Rightarrow> mserver \<Rightarrow> mserver" where
  "check_nodes [] env st = st"
| "check_nodes (i # rest) env st = check_nodes rest env (check_node i (env i) st)"

text \<open>\<^verbatim>\<open>for (int i = 0; i < num_servers; i++)\<close> over the nodes, once per turn of the main loop.\<close>

definition failure_detection :: "(nat \<Rightarrow> tick_env) \<Rightarrow> mserver \<Rightarrow> mserver" where
  "failure_detection env st = check_nodes [0..<num_servers st] env st"

text \<open>
  The main loop runs the detection, then the handlers of the messages that are ready.
  Locate requests change nothing, so a run of the metadata server is a list of
  detection rounds and server messages.
\<close>

datatype mserver_event =
    Tick "nat \<Rightarrow> tick_env"
  | Server_msg "mserver_ctrl_request option" msg_env

fun mserver_step :: "mserver_event \<Rightarrow> mserver \<Rightarrow> mserver" where
  "mserver_step (Tick env) st = failure_detection env st"
| "mserver_step (Server_msg request env) st = snd (process_server_message request env st)"

primrec run_events :: "mserver_event list \<Rightarrow> mserver \<Rightarrow> mserver" where
  "run_events [] st = st"
| "run_events (e # es) st = run_events es (mserver_step e st)"

text \<open>
  A configuration as \<^verbatim>\<open>read_config_file\<close> accepts it: at least three servers, one
  node per server.
\<close>

definition mserver_ok :: "mserver \<Rightarrow> bool" where
  "mserver_ok st = (3 \<le> num_servers st \<and> length (server_nodes st) = num_servers st)"

section \<open>The key-value server\<close>

subsection \<open>Messages and storage\<close>

text \<open>An operation type read from the wire that is none of the named ones is \<open>OP_OTHER\<close>.\<close>

datatype op_type = OP_NOOP | OP_GET | OP_PUT | OP_OTHER nat

datatype op_status = SUCCESS | KEY_NOT_FOUND | OUT_OF_SPACE | SERVER_FAILURE

record operation_request =
  req_type :: op_type
  req_key :: string
  req_value :: string

record operation_response =
  resp_status :: op_status
  resp_value :: string

text \<open>
  Modelled from the spec: the hash table of \<^verbatim>\<open>hash.h\<close> is missing from the sources.
  The spec uses it as a black box with insert, lookup and iterate. It is a list of
  entries with distinct keys; an insert replaces the value of a key in place or adds
  the entry at the end, and fails when the table cannot allocate; iteration follows
  the list.
\<close>

type_synonym hash_table = "(string \<times> string) list"

definition hash_get :: "hash_table \<Rightarrow> string \<Rightarrow> string option" where
  "hash_get table key = map_of table key"

fun hash_insert :: "hash_table \<Rightarrow> string \<Rightarrow> string \<Rightarrow> hash_table" where
  "hash_insert [] key v = [(key, v)]"
| "hash_insert ((k, w) # rest) key v =
     (if k = key then (k, v) # rest else (k, w) # hash_insert rest key v)"

definition hash_put :: "bool \<Rightarrow> hash_table \<Rightarrow> string \<Rightarrow> string \<Rightarrow> hash_table option" where
  "hash_put alloc_ok table key v = (if alloc_ok then Some (hash_insert table key v) else None)"

text \<open>
  The globals of \<^verbatim>\<open>server.c\<close> that the handlers read and write. \<open>kv_num_servers\<close> is
  the global \<^verbatim>\<open>num_servers\<close> of the server, \<open>kv_state\<close> its global \<^verbatim>\<open>state\<close>.
\<close>

record kv_server =
  server_id :: nat
  kv_num_servers :: nat
  primary_hash :: hash_table
  secondary_hash :: hash_table
  kv_state :: kv_server_state
  send_primary :: bool

text \<open>The two replica connections, \<^verbatim>\<open>primary_fd\<close> and \<^verbatim>\<open>secondary_fd\<close>.\<close>

datatype peer_fd = Primary_fd | Secondary_fd

text \<open>What a handler of the server writes to a socket, in the order it writes.\<close>

datatype server_output =
    Client_reply operation_response
  | Peer_send peer_fd operation_request
  | Mserver_send mserver_ctrl_request

subsection \<open>Client requests\<close>

text \<open>
  What the forward of a PUT meets: the descriptor is not valid (no forward is made),
  \<^verbatim>\<open>recv_msg\<close> on it fails, or the partner replies with a status.
\<close>

datatype forward_outcome = Forward_fd_invalid | Forward_recv_failed | Forward_replied op_status

record put_env =
  malloc_ok :: bool
  hash_put_ok :: bool
  forward :: forward_outcome

definition reply :: "op_status \<Rightarrow> server_output" where
  "reply s = Client_reply \<lparr>resp_status = s, resp_value = []\<rparr>"

text \<open>
  \<^verbatim>\<open>process_client_message\<close> of the key-value server. The request is \<open>None\<close> when
  \<^verbatim>\<open>recv_msg\<close> fails. The per-key lock is taken and released around the insert and the
  forward; it guards against other threads and leaves no trace in the result.
\<close>

definition process_client_message_srv ::
  "(string \<Rightarrow> nat) \<Rightarrow> operation_request option \<Rightarrow> put_env \<Rightarrow> kv_server
     \<Rightarrow> server_output list \<times> kv_server" where
  "process_client_message_srv H request env st =
     (case request of
        None \<Rightarrow> ([], st)
      | Some r \<Rightarrow>
          (let key_srv_id = key_server_id H (req_key r) (kv_num_servers st);
               secondary_srv_id = secondary_server_id key_srv_id (kv_num_servers st)
           in if (kv_state st \<noteq> KV_UPDATING_PRIMARY \<and> key_srv_id \<noteq> server_id st) \<or>
                 (kv_state st = KV_UPDATING_PRIMARY \<and> key_srv_id \<noteq> server_id st \<and>
                  secondary_srv_id \<noteq> server_id st)
              then ([reply SERVER_FAILURE], st)
              else
                (let secondary_as_primary =
                       (kv_state st = KV_UPDATING_PRIMARY \<and> secondary_srv_id = server_id st);
                     table = (if secondary_as_primary then secondary_hash st
                              else primary_hash st)
                 in case req_type r of
                      OP_NOOP \<Rightarrow> ([reply SUCCESS], st)
                    | OP_GET \<Rightarrow>
                        (case hash_get table (req_key r) of
                           None \<Rightarrow> ([reply KEY_NOT_FOUND], st)
                         | Some data \<Rightarrow>
                             ([Client_reply \<lparr>resp_status = SUCCESS, resp_value = data\<rparr>], st))
                    | OP_PUT \<Rightarrow>
                        (if \<not> malloc_ok env then ([reply OUT_OF_SPACE], st)
                         else
                           (case hash_put (hash_put_ok env) table (req_key r) (req_value r) of
                              None \<Rightarrow> ([reply OUT_OF_SPACE], st)
                            | Some table' \<Rightarrow>
                                (let st' = (if secondary_as_primary
                                            then st\<lparr>secondary_hash := table'\<rparr>
                                            else st\<lparr>primary_hash := table'\<rparr>);
                                     forward_fd = (if secondary_as_primary then Primary_fd
                                                   else Secondary_fd)
                                 in case forward env of
                                      Forward_fd_invalid \<Rightarrow> ([reply SUCCESS], st')
                                    | Forward_recv_failed \<Rightarrow> ([Peer_send forward_fd r], st')
                                    | Forward_replied s \<Rightarrow>
                                        (if s \<noteq> SUCCESS then ([Peer_send forward_fd r], st')
                                         else ([Peer_send forward_fd r, reply SUCCESS], st')))))
                    | OP_OTHER t \<Rightarrow> ([], st))))"

text \<open>
  What the client thread (\<^verbatim>\<open>process_client_task\<close>) does with a client connection that
  is ready: in state \<open>KV_SWITCHING_PRIMARY\<close> it answers \<open>SERVER_FAILURE\<close> without reading
  the request, in any other state it calls \<^verbatim>\<open>process_client_message\<close>. The request is
  what the connection holds, read or not. The other caller of the handler, the flush of
  \<^verbatim>\<open>SWITCH_PRIMARY\<close> in \<^verbatim>\<open>process_mserver_message\<close>, calls it with no such test.
\<close>

definition process_client_task_step ::
  "(string \<Rightarrow> nat) \<Rightarrow> operation_request option \<Rightarrow> put_env \<Rightarrow> kv_server
     \<Rightarrow> server_output list \<times> kv_server" where
  "process_client_task_step H request env st =
     (if kv_state st = KV_SWITCHING_PRIMARY then ([reply SERVER_FAILURE], st)
      else process_client_message_srv H request env st)"

subsection \<open>Peer requests\<close>

text \<open>
  \<^verbatim>\<open>process_server_message\<close> of the key-value server. The boolean is the return
  value: on \<open>False\<close> the main loop closes the connection the message came on.
\<close>

definition process_server_message_srv ::
  "(string \<Rightarrow> nat) \<Rightarrow> operation_request option \<Rightarrow> put_env \<Rightarrow> kv_server
     \<Rightarrow> bool \<times> server_output list \<times> kv_server" where
  "process_server_message_srv H request env st =
     (case request of
        None \<Rightarrow> (False, [], st)
      | Some r \<Rightarrow>
          (case req_type r of
             OP_NOOP \<Rightarrow> (False, [], st)
           | OP_PUT \<Rightarrow>
               (if \<not> malloc_ok env then (True, [reply OUT_OF_SPACE], st)
                else
                  (let primary_srv_id = key_server_id H (req_key r) (kv_num_servers st);
                       secondary_srv_id = secondary_server_id primary_srv_id (kv_num_servers st)
                   in if server_id st \<noteq> primary_srv_id \<and> server_id st \<noteq> secondary_srv_id
                      then (True, [reply SERVER_FAILURE], st)
                      else
                        (let to_primary = (server_id st = primary_srv_id);
                             table = (if to_primary then primary_hash st else secondary_hash st)
                         in case hash_put (hash_put_ok env) table (req_key r) (req_value r) of
                              None \<Rightarrow> (True, [reply OUT_OF_SPACE], st)
                            | Some table' \<Rightarrow>
                                (True, [reply SUCCESS],
                                 if to_primary then st\<lparr>primary_hash := table'\<rparr>
                                 else st\<lparr>secondary_hash := table'\<rparr>))))
           | _ \<Rightarrow> (True, [reply SERVER_FAILURE], st)))"

subsection \<open>Streaming a key set to a replacement\<close>

text \<open>
  \<^verbatim>\<open>strncpy(dst, src, n)\<close> into a zeroed buffer, for a source of \<open>n\<close> bytes: the bytes
  before the first zero byte, then zero bytes up to \<open>n\<close>.
\<close>

definition strncpy_value :: "string \<Rightarrow> string" where
  "strncpy_value v =
     (let p = takeWhile (\<lambda>c. c \<noteq> CHR 0x00) v
      in p @ replicate (length v - length p) (CHR 0x00))"

definition send_table_iterator_f :: "kv_server \<Rightarrow> string \<times> string \<Rightarrow> server_output" where
  "send_table_iterator_f st entry =
     (let request = \<lparr>req_type = OP_PUT, req_key = fst entry,
                     req_value = strncpy_value (snd entry)\<rparr>;
          new_fd = (if send_primary st then Secondary_fd else Primary_fd)
      in Peer_send new_fd request)"

text \<open>
  \<^verbatim>\<open>send_table_task\<close>: \<^verbatim>\<open>hash_iterate\<close> calls the iterator on every entry, then the
  confirmation goes to the metadata server and the state returns to online.
\<close>

definition send_table_task :: "kv_server \<Rightarrow> server_output list \<times> kv_server" where
  "send_table_task st =
     (let table = (if send_primary st then primary_hash st else secondary_hash st);
          puts = map (send_table_iterator_f st) table;
          request = \<lparr>mreq_type = (if send_primary st then UPDATED_SECONDARY
                                  else UPDATED_PRIMARY),
                     mreq_server_id = server_id st\<rparr>
      in (puts @ [Mserver_send request], st\<lparr>kv_state := KV_SERVER_ONLINE\<rparr>))"

section \<open>Runs and example configurations\<close>

subsection \<open>Events of a run\<close>

text \<open>
  \<open>message_from t s\<close> holds of a server message of type \<open>t\<close> sent by server \<open>s\<close>;
  \<open>event_in_range n\<close> holds of an event whose sender id, if it has one, is below \<open>n\<close>.
\<close>

fun message_from :: "mserver_ctrlreq_type \<Rightarrow> nat \<Rightarrow> mserver_event \<Rightarrow> bool" where
  "message_from t s (Server_msg (Some r) env) = (mreq_type r = t \<and> mreq_server_id r = s)"
| "message_from t s e = False"

fun event_in_range :: "nat \<Rightarrow> mserver_event \<Rightarrow> bool" where
  "event_in_range n (Server_msg (Some r) env) = (mreq_server_id r < n)"
| "event_in_range n e = True"

text \<open>
  The switch that a server message runs in the state it meets, as the pair of the
  replacement and its secondary that \<^verbatim>\<open>process_server_message\<close> hands to
  \<^verbatim>\<open>handle_switch_primary\<close>: an \<open>UPDATED_PRIMARY\<close> while \<open>UPDATED_SECONDARY\<close> is recorded
  for the same shard, or the other way round. Any other message runs no switch.
\<close>

definition switch_of :: "mserver \<Rightarrow> mserver_ctrl_request \<Rightarrow> (nat \<times> nat) option" where
  "switch_of st r =
     (case mreq_type r of
        UPDATED_PRIMARY \<Rightarrow>
          (let Sb = mreq_server_id r;
               Saa = primary_server_id Sb (num_servers st)
           in if updated_secondary_accepted (server_nodes st ! Saa) then Some (Saa, Sb)
              else None)
      | UPDATED_SECONDARY \<Rightarrow>
          (let Sc = mreq_server_id r;
               Saa = secondary_server_id Sc (num_servers st);
               Sb = secondary_server_id Saa (num_servers st)
           in if updated_primary_accepted (server_nodes st ! Saa) then Some (Saa, Sb)
              else None)
      | _ \<Rightarrow> None)"

text \<open>
  An event that does not clear \<open>ignore_put\<close> of node \<open>i\<close>: a detection round that does
  not respawn \<open>i\<close>; or a server message, its sender id in range, that runs no switch,
  or runs a switch whose \<open>SET_SECONDARY\<close> request fails, or runs a switch of two other
  nodes. \<open>quiet_run\<close> asks it of every event of a run, in the state the event meets.
\<close>

fun quiet_event :: "nat \<Rightarrow> mserver \<Rightarrow> mserver_event \<Rightarrow> bool" where
  "quiet_event i st (Tick env) =
     (\<not> (heartbeat_check_failed (now_check (env i)) (server_nodes st ! i) \<and> spawn_ok (env i)))"
| "quiet_event i st (Server_msg None env) = True"
| "quiet_event i st (Server_msg (Some r) env) =
     (mreq_server_id r < num_servers st \<and>
      (case switch_of st r of
         None \<Rightarrow> True
       | Some (Saa, Sb) \<Rightarrow>
           env_set_secondary env \<noteq> Replied CTRLREQ_SUCCESS \<or> (i \<noteq> Saa \<and> i \<noteq> Sb)))"

primrec quiet_run :: "nat \<Rightarrow> mserver_event list \<Rightarrow> mserver \<Rightarrow> bool" where
  "quiet_run i [] st = True"
| "quiet_run i (e # es) st = (quiet_event i st e \<and> quiet_run i es (mserver_step e st))"

text \<open>
  An event of the recovery of shard \<open>a\<close>: a detection round that does not respawn \<open>a\<close>,
  or a server message whose sender id is in range and whose \<open>SWITCH_PRIMARY\<close> request,
  if it makes one, finds a valid descriptor. \<open>recovery_run\<close> asks it of every event of
  a run, in the state the event meets.
\<close>

fun recovery_event :: "nat \<Rightarrow> mserver \<Rightarrow> mserver_event \<Rightarrow> bool" where
  "recovery_event a st (Tick env) =
     (\<not> (heartbeat_check_failed (now_check (env a)) (server_nodes st ! a) \<and> spawn_ok (env a)))"
| "recovery_event a st (Server_msg None env) = True"
| "recovery_event a st (Server_msg (Some r) env) =
     (mreq_server_id r < num_servers st \<and> env_switch env \<noteq> Fd_invalid)"

primrec recovery_run :: "nat \<Rightarrow> mserver_event list \<Rightarrow> mserver \<Rightarrow> bool" where
  "recovery_run a [] st = True"
| "recovery_run a (e # es) st = (recovery_event a st e \<and> recovery_run a es (mserver_step e st))"

text \<open>
  The control requests sent between two states of a run: what \<open>sent\<close> holds beyond its
  length in the earlier state.
\<close>

definition sent_since :: "mserver \<Rightarrow> mserver \<Rightarrow> ctrl_msg list" where
  "sent_since st st' = drop (length (sent st)) (sent st')"

subsection \<open>Example configurations\<close>

text \<open>
  Three servers on \<open>localhost\<close>, with client ports 6000 to 6002. The example hash of a
  key is its length, so \<open>''abc''\<close> belongs to server 0, \<open>''abcd''\<close> to server 1 and
  \<open>''ab''\<close> to server 2.
\<close>

definition example_hash :: "string \<Rightarrow> nat" where
  "example_hash key = length key"

definition example_node :: "nat \<Rightarrow> int \<Rightarrow> kv_server_state \<Rightarrow> server_node" where
  "example_node i t s =
     \<lparr>host_name = ''localhost'', sport = 5000 + of_nat i, cport = 6000 + of_nat i,
      mport = 7000 + of_nat i, sid = i, last_heartbeat = t, server_status = s,
      updated_primary_accepted = False, updated_secondary_accepted = False,
      ignore_put = False\<rparr>"

definition example_mserver :: "server_node list \<Rightarrow> mserver" where
  "example_mserver nodes =
     \<lparr>server_timeout = 3, num_servers = length nodes, server_nodes = nodes, sent = []\<rparr>"

definition example_tick :: "int \<Rightarrow> bool \<Rightarrow> nat \<Rightarrow> tick_env" where
  "example_tick t ok i =
     \<lparr>now_check = t, spawn_ok = ok, now_spawned = t,
      out_update_primary = Replied CTRLREQ_SUCCESS,
      out_update_secondary = Replied CTRLREQ_SUCCESS\<rparr>"

definition example_msg_env :: "int \<Rightarrow> ctrl_outcome \<Rightarrow> msg_env" where
  "example_msg_env t out =
     \<lparr>env_time = t, env_switch = Replied CTRLREQ_SUCCESS, env_set_secondary = out\<rparr>"

text \<open>
  The globals when the main loop starts: \<open>server_timeout\<close> as \<^verbatim>\<open>parse_args\<close> leaves
  it, one node per server of the configuration file, nothing sent yet.
\<close>

definition start_mserver :: "mserver_args \<Rightarrow> server_node list \<Rightarrow> mserver" where
  "start_mserver a nodes =
     \<lparr>server_timeout = arg_server_timeout a, num_servers = length nodes,
      server_nodes = nodes, sent = []\<rparr>"

definition timeout_10_args :: mserver_args where
  "timeout_10_args =
     \<lparr>clients_port = 9000, servers_port = 9001, cfg_file_name = ''srv.conf'',
      log_file_name = [], arg_server_timeout = 10\<rparr>"

text \<open>Server 1 has never sent a heartbeat; the clock runs far ahead and server 0 fails.\<close>

definition never_heard_mserver :: mserver where
  "never_heard_mserver =
     example_mserver [example_node 0 999999 KV_SERVER_ONLINE,
       example_node 1 0 KV_SERVER_ONLINE, example_node 2 999999 KV_SERVER_ONLINE]"

definition never_heard_events :: "mserver_event list" where
  "never_heard_events =
     [Tick (example_tick 1000000 True),
      Server_msg (Some \<lparr>mreq_type = HEARTBEAT, mreq_server_id = 0\<rparr>)
        (example_msg_env 1000001 Io_failed),
      Tick (example_tick 2000000 False)]"

text \<open>Server 0 is being reconstructed and \<open>ignore_put\<close> is set on its secondary.\<close>

definition switch_mserver :: mserver where
  "switch_mserver =
     example_mserver [example_node 0 1000 KV_SERVER_RECON,
       (example_node 1 1000 KV_SERVER_ONLINE)\<lparr>ignore_put := True\<rparr>,
       example_node 2 1000 KV_SERVER_ONLINE]"

text \<open>
  Server 0 is being reconstructed and \<open>UPDATED_PRIMARY\<close> has arrived; the second
  acknowledgment starts a switch whose \<open>SET_SECONDARY\<close> request fails.
\<close>

definition failed_switch_mserver :: mserver where
  "failed_switch_mserver =
     example_mserver [(example_node 0 1009 KV_SERVER_RECON)\<lparr>updated_primary_accepted := True\<rparr>,
       example_node 1 1000 KV_SERVER_ONLINE, example_node 2 1009 KV_SERVER_ONLINE]"

definition failed_switch_event :: mserver_event where
  "failed_switch_event =
     Server_msg (Some \<lparr>mreq_type = UPDATED_SECONDARY, mreq_server_id = 2\<rparr>)
       (example_msg_env 1009 Io_failed)"

text \<open>
  After the failed switch: a heartbeat, a detection round that finds no failure, an
  \<open>UPDATED_PRIMARY\<close> that only records its flag, an \<open>UPDATE_PRIMARY_FAILED\<close>, and an
  \<open>UPDATED_SECONDARY\<close> that runs the switch again, which fails again.
\<close>

definition quiet_events :: "mserver_event list" where
  "quiet_events =
     [Server_msg (Some \<lparr>mreq_type = HEARTBEAT, mreq_server_id = 1\<rparr>)
        (example_msg_env 1001 Io_failed),
      Tick (example_tick 1002 True),
      Server_msg (Some \<lparr>mreq_type = UPDATED_PRIMARY, mreq_server_id = 1\<rparr>)
        (example_msg_env 1002 (Replied CTRLREQ_SUCCESS)),
      Server_msg (Some \<lparr>mreq_type = UPDATE_PRIMARY_FAILED, mreq_server_id = 1\<rparr>)
        (example_msg_env 1002 Io_failed),
      Server_msg (Some \<lparr>mreq_type = UPDATED_SECONDARY, mreq_server_id = 2\<rparr>)
        (example_msg_env 1002 Io_failed)]"

text \<open>All three servers online, with last heartbeats at 1000, 1002 and 1004.\<close>

definition two_failures_mserver :: mserver where
  "two_failures_mserver =
     example_mserver [example_node 0 1000 KV_SERVER_ONLINE,
       example_node 1 1002 KV_SERVER_ONLINE, example_node 2 1004 KV_SERVER_ONLINE]"

text \<open>Server 0 fails, is respawned and, with both acknowledgments, takes its shard back.\<close>

definition recovery_events :: "mserver_event list" where
  "recovery_events =
     [Tick (example_tick 1003 True),
      Server_msg (Some \<lparr>mreq_type = UPDATED_SECONDARY, mreq_server_id = 2\<rparr>)
        (example_msg_env 1004 (Replied CTRLREQ_SUCCESS)),
      Server_msg (Some \<lparr>mreq_type = UPDATED_PRIMARY, mreq_server_id = 1\<rparr>)
        (example_msg_env 1004 (Replied CTRLREQ_SUCCESS))]"

text \<open>
  Server 0 has failed and has been respawned; its two neighbours acknowledge, with a
  detection round and a heartbeat in between.
\<close>

definition both_acks_mserver :: mserver where
  "both_acks_mserver = run_events [Tick (example_tick 1003 True)] two_failures_mserver"

definition both_acks_events :: "mserver_event list" where
  "both_acks_events =
     [Server_msg (Some \<lparr>mreq_type = UPDATED_SECONDARY, mreq_server_id = 2\<rparr>)
        (example_msg_env 1004 (Replied CTRLREQ_SUCCESS)),
      Tick (example_tick 1004 True),
      Server_msg (Some \<lparr>mreq_type = HEARTBEAT, mreq_server_id = 1\<rparr>)
        (example_msg_env 1004 (Replied CTRLREQ_SUCCESS)),
      Server_msg (Some \<lparr>mreq_type = UPDATED_PRIMARY, mreq_server_id = 1\<rparr>)
        (example_msg_env 1005 (Replied CTRLREQ_SUCCESS))]"

text \<open>A key-value server of three, by id, state, primary table and secondary table.\<close>

definition example_server :: "nat \<Rightarrow> kv_server_state \<Rightarrow> hash_table \<Rightarrow> hash_table \<Rightarrow> kv_server" where
  "example_server i s p q =
     \<lparr>server_id = i, kv_num_servers = 3, primary_hash = p, secondary_hash = q,
      kv_state = s, send_primary = False\<rparr>"

definition example_put_env :: "forward_outcome \<Rightarrow> put_env" where
  "example_put_env f = \<lparr>malloc_ok = True, hash_put_ok = True, forward = f\<rparr>"

definition example_get :: "string \<Rightarrow> operation_request" where
  "example_get k = \<lparr>req_type = OP_GET, req_key = k, req_value = []\<rparr>"

definition example_put :: "string \<Rightarrow> string \<Rightarrow> operation_request" where
  "example_put k v = \<lparr>req_type = OP_PUT, req_key = k, req_value = v\<rparr>"

section \<open>Placement\<close>

text \<open>On ids below \<open>n\<close>, primary and secondary are inverse to each other.\<close>

lemma secondary_server_id_less: "0 < n \<Longrightarrow> secondary_server_id a n < n"
  by (simp add: secondary_server_id_def)

lemma primary_server_id_less: "0 < n \<Longrightarrow> primary_server_id a n < n"
  by (simp add: primary_server_id_def)

lemma primary_of_secondary: "a < n \<Longrightarrow> primary_server_id (secondary_server_id a n) n = a"
  unfolding primary_server_id_def secondary_server_id_def
  by (cases "Suc a = n") (auto simp: mod_Suc)

lemma secondary_of_primary: "a < n \<Longrightarrow> secondary_server_id (primary_server_id a n) n = a"
  unfolding primary_server_id_def secondary_server_id_def
  by (cases a) (auto simp: mod_Suc)

lemma secondary_server_id_neq: "2 \<le> n \<Longrightarrow> a < n \<Longrightarrow> secondary_server_id a n \<noteq> a"
  unfolding secondary_server_id_def
  by (cases "Suc a = n") (auto simp: mod_Suc)

lemma secondary_server_id_inj:
  "a < n \<Longrightarrow> b < n \<Longrightarrow> secondary_server_id a n = secondary_server_id b n \<Longrightarrow> a = b"
  by (metis primary_of_secondary)

lemma primary_server_id_inj:
  "a < n \<Longrightarrow> b < n \<Longrightarrow> primary_server_id a n = primary_server_id b n \<Longrightarrow> a = b"
  by (metis secondary_of_primary)

section \<open>What the handlers of the metadata server leave unchanged\<close>

lemma node_upd_simps [simp]:
  "num_servers (node_upd i f st) = num_servers st"
  "sent (node_upd i f st) = sent st"
  "server_timeout (node_upd i f st) = server_timeout st"
  "length (server_nodes (node_upd i f st)) = length (server_nodes st)"
  by (simp_all add: node_upd_def)

lemma node_upd_nth:
  "server_nodes (node_upd i f st) ! j =
     (if j = i \<and> i < length (server_nodes st) then f (server_nodes st ! i) else server_nodes st ! j)"
  by (cases "i < length (server_nodes st)")
     (simp_all add: node_upd_def nth_list_update list_update_beyond)

lemma node_upd_ignore_put_keeps:
  "host_name (server_nodes (node_upd i (\<lambda>n. n\<lparr>ignore_put := v\<rparr>) st) ! j) =
   host_name (server_nodes st ! j)"
  "sport (server_nodes (node_upd i (\<lambda>n. n\<lparr>ignore_put := v\<rparr>) st) ! j) =
   sport (server_nodes st ! j)"
  by (simp_all add: node_upd_nth)

lemma send_request_simps [simp]:
  "num_servers (snd (send_request a b t out st)) = num_servers st"
  "server_nodes (snd (send_request a b t out st)) = server_nodes st"
  "server_timeout (snd (send_request a b t out st)) = server_timeout st"
  by (simp_all add: send_request_def Let_def split: ctrl_outcome.splits)

lemma send_set_secondary_simps [simp]:
  "num_servers (snd (send_set_secondary a out st)) = num_servers st"
  "server_nodes (snd (send_set_secondary a out st)) = server_nodes st"
  "server_timeout (snd (send_set_secondary a out st)) = server_timeout st"
  by (simp_all add: send_set_secondary_def Let_def split: ctrl_outcome.splits)

lemma send_set_secondary_ok [simp]:
  "fst (send_set_secondary a out st) = (out = Replied CTRLREQ_SUCCESS)"
  by (simp add: send_set_secondary_def Let_def split: ctrl_outcome.splits)

lemma handle_switch_primary_frame [simp]:
  "num_servers (handle_switch_primary a b o1 o2 st) = num_servers st"
  "length (server_nodes (handle_switch_primary a b o1 o2 st)) = length (server_nodes st)"
  "server_timeout (handle_switch_primary a b o1 o2 st) = server_timeout st"
  by (simp_all add: handle_switch_primary_def Let_def case_prod_beta)

lemma handle_switch_primary_other:
  "j \<noteq> a \<Longrightarrow> j \<noteq> b \<Longrightarrow>
   server_nodes (handle_switch_primary a b o1 o2 st) ! j = server_nodes st ! j"
  by (simp add: handle_switch_primary_def Let_def case_prod_beta node_upd_nth)

lemma handle_switch_primary_last_heartbeat:
  "last_heartbeat (server_nodes (handle_switch_primary a b o1 o2 st) ! j) =
   last_heartbeat (server_nodes st ! j)"
  by (simp add: handle_switch_primary_def Let_def case_prod_beta node_upd_nth)

lemma handle_switch_primary_acks:
  "updated_primary_accepted (server_nodes (handle_switch_primary a b o1 o2 st) ! j) =
   updated_primary_accepted (server_nodes st ! j)"
  "updated_secondary_accepted (server_nodes (handle_switch_primary a b o1 o2 st) ! j) =
   updated_secondary_accepted (server_nodes st ! j)"
  by (simp_all add: handle_switch_primary_def Let_def case_prod_beta node_upd_nth)

lemma handle_switch_primary_status_eq:
  "server_status (server_nodes (handle_switch_primary a b o1 o2 st) ! j) =
     (if o2 = Replied CTRLREQ_SUCCESS \<and> j = a \<and> a < length (server_nodes st)
      then KV_SERVER_ONLINE else server_status (server_nodes st ! j))"
  by (simp add: handle_switch_primary_def Let_def case_prod_beta node_upd_nth)

lemma handle_switch_primary_ignore_put_eq:
  "ignore_put (server_nodes (handle_switch_primary a b o1 o2 st) ! j) =
     (if (j = a \<or> j = b) \<and> j < length (server_nodes st)
      then o2 \<noteq> Replied CTRLREQ_SUCCESS else ignore_put (server_nodes st ! j))"
  by (auto simp add: handle_switch_primary_def Let_def case_prod_beta node_upd_nth)

lemma handle_switch_primary_sent:
  "sent (handle_switch_primary a b o1 o2 st) =
     sent st @ (if o1 = Fd_invalid then [] else [Ctrl_msg b SWITCH_PRIMARY [] 0]) @
     [Ctrl_msg a SET_SECONDARY
        (host_of (host_name (server_nodes st ! secondary_server_id a (num_servers st))))
        (sport (server_nodes st ! secondary_server_id a (num_servers st)))]"
  by (simp add: handle_switch_primary_def Let_def case_prod_beta send_request_def
        send_set_secondary_def node_upd_ignore_put_keeps split: ctrl_outcome.splits)

lemma check_node_frame [simp]:
  "num_servers (check_node j env st) = num_servers st"
  "length (server_nodes (check_node j env st)) = length (server_nodes st)"
  "server_timeout (check_node j env st) = server_timeout st"
  by (simp_all add: check_node_def Let_def)

lemma check_node_other:
  "j \<noteq> i \<Longrightarrow> server_nodes (check_node j env st) ! i = server_nodes st ! i"
  by (simp add: check_node_def Let_def node_upd_nth)

lemma check_node_never_heard:
  "last_heartbeat (server_nodes st ! i) = 0 \<Longrightarrow> check_node i env st = st"
  by (simp add: check_node_def heartbeat_check_failed_def)

lemma check_nodes_frame [simp]:
  "num_servers (check_nodes js env st) = num_servers st"
  "length (server_nodes (check_nodes js env st)) = length (server_nodes st)"
  "server_timeout (check_nodes js env st) = server_timeout st"
  by (induction js arbitrary: st) simp_all

lemma check_nodes_never_heard:
  "last_heartbeat (server_nodes st ! i) = 0 \<Longrightarrow>
   server_nodes (check_nodes js env st) ! i = server_nodes st ! i"
proof (induction js arbitrary: st)
  case Nil
  then show ?case by simp
next
  case (Cons j js)
  have same: "server_nodes (check_node j (env j) st) ! i = server_nodes st ! i"
    using Cons.prems by (cases "j = i") (simp_all add: check_node_never_heard check_node_other)
  with Cons.prems have "last_heartbeat (server_nodes (check_node j (env j) st) ! i) = 0"
    by simp
  from Cons.IH [OF this] same show ?case by simp
qed

lemma process_server_message_frame [simp]:
  "num_servers (snd (process_server_message request env st)) = num_servers st"
  "length (server_nodes (snd (process_server_message request env st))) = length (server_nodes st)"
  "server_timeout (snd (process_server_message request env st)) = server_timeout st"
  by (simp_all add: process_server_message_def Let_def
        split: option.splits mserver_ctrlreq_type.splits)

lemma mserver_step_frame [simp]:
  "num_servers (mserver_step e st) = num_servers st"
  "length (server_nodes (mserver_step e st)) = length (server_nodes st)"
  "server_timeout (mserver_step e st) = server_timeout st"
  by (cases e; simp add: failure_detection_def)+

lemma run_events_frame [simp]:
  "num_servers (run_events es st) = num_servers st"
  "length (server_nodes (run_events es st)) = length (server_nodes st)"
  "server_timeout (run_events es st) = server_timeout st"
  by (induction es arbitrary: st) simp_all

lemma process_server_message_last_heartbeat:
  "\<not> message_from HEARTBEAT i (Server_msg request env) \<Longrightarrow>
   last_heartbeat (server_nodes (snd (process_server_message request env st)) ! i) =
   last_heartbeat (server_nodes st ! i)"
  by (cases request)
     (auto simp: process_server_message_def Let_def node_upd_nth
        handle_switch_primary_last_heartbeat split: mserver_ctrlreq_type.splits)

lemma process_server_message_status:
  "server_status (server_nodes (snd (process_server_message request env st)) ! i) =
     server_status (server_nodes st ! i) \<or>
   server_status (server_nodes (snd (process_server_message request env st)) ! i) =
     KV_SERVER_ONLINE"
  by (cases request)
     (auto simp: process_server_message_def Let_def node_upd_nth
        handle_switch_primary_status_eq split: mserver_ctrlreq_type.splits)

lemmas mserver_eval =
  example_mserver_def example_node_def example_tick_def example_msg_env_def example_hash_def
  failure_detection_def check_node_def heartbeat_check_failed_def heartbeat_check_diff_def
  node_upd_def send_request_def send_set_secondary_def process_server_message_def
  handle_switch_primary_def process_client_message_def locate_server_id_def
  key_server_id_def secondary_server_id_def primary_server_id_def host_of_def Let_def upt_rec

section \<open>Failure detection\<close>

lemma never_heard_step:
  assumes "last_heartbeat (server_nodes st ! i) = 0"
    and "server_status (server_nodes st ! i) \<noteq> KV_SERVER_FAILED"
    and "\<not> message_from HEARTBEAT i e"
  shows "last_heartbeat (server_nodes (mserver_step e st) ! i) = 0 \<and>
         server_status (server_nodes (mserver_step e st) ! i) \<noteq> KV_SERVER_FAILED"
proof (cases e)
  case (Tick env)
  then show ?thesis
    using assms by (simp add: failure_detection_def check_nodes_never_heard)
next
  case (Server_msg request env)
  then show ?thesis
    using assms process_server_message_last_heartbeat [of i request env st]
      process_server_message_status [of request env st i]
    by auto
qed

text \<open>
  Claim C9. A node whose \<open>last_heartbeat\<close> is still zero is never marked
  \<open>KV_SERVER_FAILED\<close>: over any run of detection rounds, whatever the clock reads,
  and of server messages that carry no \<open>HEARTBEAT\<close> from that node, its timestamp stays
  zero and its status does not become failed. Only a processed \<open>HEARTBEAT\<close> from the node
  makes the detector apply to it.
\<close>

theorem never_heard_never_failed:
  assumes "mserver_ok st" and "i < num_servers st"
    and "last_heartbeat (server_nodes st ! i) = 0"
    and "server_status (server_nodes st ! i) \<noteq> KV_SERVER_FAILED"
    and "\<forall>e \<in> set es. event_in_range (num_servers st) e \<and> \<not> message_from HEARTBEAT i e"
  shows "last_heartbeat (server_nodes (run_events es st) ! i) = 0 \<and>
         server_status (server_nodes (run_events es st) ! i) \<noteq> KV_SERVER_FAILED"
  using assms
proof (induction es arbitrary: st)
  case Nil
  then show ?case by simp
next
  case (Cons e es)
  have step: "last_heartbeat (server_nodes (mserver_step e st) ! i) = 0 \<and>
         server_status (server_nodes (mserver_step e st) ! i) \<noteq> KV_SERVER_FAILED"
    using Cons.prems by (intro never_heard_step) simp_all
  have "mserver_ok (mserver_step e st)"
    using Cons.prems(1) by (simp add: mserver_ok_def)
  with Cons.IH [of "mserver_step e st"] step Cons.prems show ?case
    by simp
qed

theorem never_heard_never_failed_witness:
  "mserver_ok never_heard_mserver \<and> 1 < num_servers never_heard_mserver \<and>
   last_heartbeat (server_nodes never_heard_mserver ! 1) = 0 \<and>
   server_status (server_nodes never_heard_mserver ! 1) \<noteq> KV_SERVER_FAILED \<and>
   list_all (\<lambda>e. event_in_range (num_servers never_heard_mserver) e \<and>
                 \<not> message_from HEARTBEAT 1 e) never_heard_events \<and>
   last_heartbeat (server_nodes (run_events never_heard_events never_heard_mserver) ! 1) = 0 \<and>
   server_status (server_nodes (run_events never_heard_events never_heard_mserver) ! 1)
     \<noteq> KV_SERVER_FAILED \<and>
   server_status (server_nodes (run_events never_heard_events never_heard_mserver) ! 0)
     = KV_SERVER_FAILED"
proof -
  have h: "mserver_ok never_heard_mserver" "1 < num_servers never_heard_mserver"
    "last_heartbeat (server_nodes never_heard_mserver ! 1) = 0"
    "server_status (server_nodes never_heard_mserver ! 1) \<noteq> KV_SERVER_FAILED"
    "\<forall>e \<in> set never_heard_events.
      event_in_range (num_servers never_heard_mserver) e \<and> \<not> message_from HEARTBEAT 1 e"
    by (simp_all add: never_heard_mserver_def never_heard_events_def example_mserver_def
          example_node_def mserver_ok_def)
  have other: "server_status (server_nodes (run_events never_heard_events never_heard_mserver) ! 0)
     = KV_SERVER_FAILED"
    by (simp add: never_heard_mserver_def never_heard_events_def example_mserver_def
          example_node_def example_tick_def example_msg_env_def failure_detection_def
          check_node_def heartbeat_check_failed_def heartbeat_check_diff_def node_upd_def
          send_request_def process_server_message_def secondary_server_id_def
          primary_server_id_def Let_def upt_rec)
  from never_heard_never_failed [OF h] h other show ?thesis by (simp add: list_all_iff)
qed

lemma check_node_ignores_timeout:
  "check_node i env (st\<lparr>server_timeout := t\<rparr>) = (check_node i env st)\<lparr>server_timeout := t\<rparr>"
  by (simp add: check_node_def Let_def node_upd_def send_request_def
        split: ctrl_outcome.splits)

lemma check_nodes_ignore_timeout:
  "check_nodes js env (st\<lparr>server_timeout := t\<rparr>) = (check_nodes js env st)\<lparr>server_timeout := t\<rparr>"
  by (induction js arbitrary: st) (simp_all add: check_node_ignores_timeout)

lemma failure_detection_ignores_timeout:
  "failure_detection env (st\<lparr>server_timeout := t\<rparr>) =
   (failure_detection env st)\<lparr>server_timeout := t\<rparr>"
  by (simp add: failure_detection_def check_nodes_ignore_timeout)

text \<open>
  Claim C3 at a failing input. The metadata server is started with \<^verbatim>\<open>-t 10\<close>; server 0
  sent its last heartbeat at 1000. At 1003, three seconds later and well within the ten
  asked for, the detection round marks server 0 failed.
\<close>

theorem timeout_option_unused_at_input:
  "parse_args [Opt_c 9000, Opt_s 9001, Opt_C ''srv.conf'', Opt_t 10] = Some timeout_10_args \<and>
   server_timeout (start_mserver timeout_10_args
     [example_node 0 1000 KV_SERVER_ONLINE, example_node 1 1002 KV_SERVER_ONLINE,
      example_node 2 1002 KV_SERVER_ONLINE]) = 10 \<and>
   server_status (server_nodes
     (failure_detection (example_tick 1003 False)
        (start_mserver timeout_10_args
           [example_node 0 1000 KV_SERVER_ONLINE, example_node 1 1002 KV_SERVER_ONLINE,
            example_node 2 1002 KV_SERVER_ONLINE])) ! 0) = KV_SERVER_FAILED"
  by (simp add: parse_args_def initial_args_def timeout_10_args_def start_mserver_def
        default_server_timeout_def mserver_eval)

section \<open>Acknowledgments and the switch\<close>

lemma ack_step_primary:
  assumes "0 < num_servers st" "length (server_nodes st) = num_servers st"
    "a < num_servers st" "mreq_server_id r < num_servers st"
  shows "updated_primary_accepted
           (server_nodes (snd (process_server_message (Some r) env st)) ! a) =
         (updated_primary_accepted (server_nodes st ! a) \<or>
          (mreq_type r = UPDATED_PRIMARY \<and>
           mreq_server_id r = secondary_server_id a (num_servers st)))"
proof -
  have "primary_server_id (mreq_server_id r) (num_servers st) = a \<longleftrightarrow>
        mreq_server_id r = secondary_server_id a (num_servers st)"
    using assms by (metis primary_of_secondary secondary_of_primary)
  then show ?thesis
    using assms
    by (cases "mreq_type r")
       (auto simp: process_server_message_def Let_def node_upd_nth handle_switch_primary_acks)
qed

lemma ack_step_secondary:
  assumes "0 < num_servers st" "length (server_nodes st) = num_servers st"
    "a < num_servers st" "mreq_server_id r < num_servers st"
  shows "updated_secondary_accepted
           (server_nodes (snd (process_server_message (Some r) env st)) ! a) =
         (updated_secondary_accepted (server_nodes st ! a) \<or>
          (mreq_type r = UPDATED_SECONDARY \<and>
           mreq_server_id r = primary_server_id a (num_servers st)))"
proof -
  have "secondary_server_id (mreq_server_id r) (num_servers st) = a \<longleftrightarrow>
        mreq_server_id r = primary_server_id a (num_servers st)"
    using assms by (metis primary_of_secondary secondary_of_primary)
  then show ?thesis
    using assms
    by (cases "mreq_type r")
       (auto simp: process_server_message_def Let_def node_upd_nth handle_switch_primary_acks)
qed

lemma process_updated_primary:
  assumes "mreq_type r = UPDATED_PRIMARY"
    and "primary_server_id (mreq_server_id r) (num_servers st) < length (server_nodes st)"
  shows "snd (process_server_message (Some r) env st) =
     (let Saa = primary_server_id (mreq_server_id r) (num_servers st);
          st1 = node_upd Saa (\<lambda>n. n\<lparr>updated_primary_accepted := True\<rparr>) st
      in if updated_secondary_accepted (server_nodes st ! Saa)
         then handle_switch_primary Saa (mreq_server_id r) (env_switch env)
                (env_set_secondary env) st1
         else st1)"
  using assms by (simp add: process_server_message_def Let_def node_upd_nth)

lemma process_updated_secondary:
  assumes "mreq_type r = UPDATED_SECONDARY"
    and "secondary_server_id (mreq_server_id r) (num_servers st) < length (server_nodes st)"
  shows "snd (process_server_message (Some r) env st) =
     (let Saa = secondary_server_id (mreq_server_id r) (num_servers st);
          st1 = node_upd Saa (\<lambda>n. n\<lparr>updated_secondary_accepted := True\<rparr>) st
      in if updated_primary_accepted (server_nodes st ! Saa)
         then handle_switch_primary Saa (secondary_server_id Saa (num_servers st))
                (env_switch env) (env_set_secondary env) st1
         else st1)"
  using assms by (simp add: process_server_message_def Let_def node_upd_nth)

lemma check_node_acks:
  assumes "\<not> (heartbeat_check_failed (now_check (env a)) (server_nodes st ! a) \<and> spawn_ok (env a))"
  shows "updated_primary_accepted (server_nodes (check_node j (env j) st) ! a) =
           updated_primary_accepted (server_nodes st ! a) \<and>
         updated_secondary_accepted (server_nodes (check_node j (env j) st) ! a) =
           updated_secondary_accepted (server_nodes st ! a) \<and>
         \<not> (heartbeat_check_failed (now_check (env a))
               (server_nodes (check_node j (env j) st) ! a) \<and> spawn_ok (env a))"
proof (cases "j = a")
  case False
  with assms show ?thesis by (simp add: check_node_other)
next
  case True
  with assms show ?thesis
    by (auto simp: check_node_def Let_def node_upd_nth heartbeat_check_failed_def)
qed

lemma check_nodes_acks:
  assumes "\<not> (heartbeat_check_failed (now_check (env a)) (server_nodes st ! a) \<and> spawn_ok (env a))"
  shows "updated_primary_accepted (server_nodes (check_nodes js env st) ! a) =
           updated_primary_accepted (server_nodes st ! a) \<and>
         updated_secondary_accepted (server_nodes (check_nodes js env st) ! a) =
           updated_secondary_accepted (server_nodes st ! a)"
  using assms
proof (induction js arbitrary: st)
  case Nil
  then show ?case by simp
next
  case (Cons j js)
  from check_node_acks [of env a st j] Cons.prems
  show ?case by (simp add: Cons.IH)
qed

lemma switch_msg_step:
  assumes n: "0 < num_servers st" "length (server_nodes st) = num_servers st"
    and a: "a < num_servers st" and r: "mreq_server_id r < num_servers st"
    and out: "env_switch env \<noteq> Fd_invalid"
  shows "\<exists>X. sent (snd (process_server_message (Some r) env st)) = sent st @ X \<and>
           (Ctrl_msg (secondary_server_id a (num_servers st)) SWITCH_PRIMARY [] 0 \<in> set X
              \<longleftrightarrow>
            (mreq_type r = UPDATED_PRIMARY \<and>
               mreq_server_id r = secondary_server_id a (num_servers st) \<and>
               updated_secondary_accepted (server_nodes st ! a)) \<or>
            (mreq_type r = UPDATED_SECONDARY \<and>
               mreq_server_id r = primary_server_id a (num_servers st) \<and>
               updated_primary_accepted (server_nodes st ! a)))"
proof -
  let ?n = "num_servers st"
  let ?s = "mreq_server_id r"
  have p: "?s = secondary_server_id a ?n \<Longrightarrow> primary_server_id ?s ?n = a"
    using a by (simp add: primary_of_secondary)
  have pl: "primary_server_id ?s ?n < length (server_nodes st)"
    using n by (simp add: primary_server_id_less)
  have s1: "secondary_server_id ?s ?n < ?n"
    using n by (simp add: secondary_server_id_less)
  have s2: "secondary_server_id (secondary_server_id ?s ?n) ?n = secondary_server_id a ?n
              \<longleftrightarrow> ?s = primary_server_id a ?n"
    using a r s1 by (metis secondary_server_id_inj secondary_of_primary primary_of_secondary)
  have s3: "?s = primary_server_id a ?n \<Longrightarrow> secondary_server_id ?s ?n = a"
    using a by (simp add: secondary_of_primary)
  show ?thesis
  proof (cases "mreq_type r")
    case UPDATED_PRIMARY
    show ?thesis
    proof (cases "?s = secondary_server_id a ?n")
      case True
      with UPDATED_PRIMARY pl out p show ?thesis
        by (simp add: process_updated_primary Let_def handle_switch_primary_sent)
    next
      case False
      with UPDATED_PRIMARY pl out show ?thesis
        by (simp add: process_updated_primary Let_def handle_switch_primary_sent)
    qed
  next
    case UPDATED_SECONDARY
    show ?thesis
    proof (cases "?s = primary_server_id a ?n")
      case True
      with UPDATED_SECONDARY s1 n out s3 show ?thesis
        by (simp add: process_updated_secondary Let_def handle_switch_primary_sent)
    next
      case False
      with UPDATED_SECONDARY s1 n out s2 show ?thesis
        by (simp add: process_updated_secondary Let_def handle_switch_primary_sent)
    qed
  qed (simp_all add: process_server_message_def)
qed

lemma check_node_sends_no_switch:
  "\<exists>X. sent (check_node j env st) = sent st @ X \<and> Ctrl_msg b SWITCH_PRIMARY h p \<notin> set X"
  by (simp add: check_node_def Let_def send_request_def split: ctrl_outcome.splits)

lemma check_nodes_send_no_switch:
  "\<exists>X. sent (check_nodes js env st) = sent st @ X \<and> Ctrl_msg b SWITCH_PRIMARY h p \<notin> set X"
proof (induction js arbitrary: st)
  case Nil
  then show ?case by simp
next
  case (Cons j js)
  obtain X where X: "sent (check_node j (env j) st) = sent st @ X"
    "Ctrl_msg b SWITCH_PRIMARY h p \<notin> set X"
    using check_node_sends_no_switch by blast
  obtain Y where Y: "sent (check_nodes js env (check_node j (env j) st)) =
      sent (check_node j (env j) st) @ Y" "Ctrl_msg b SWITCH_PRIMARY h p \<notin> set Y"
    using Cons.IH by blast
  from X Y have "sent (check_nodes (j # js) env st) = sent st @ (X @ Y) \<and>
      Ctrl_msg b SWITCH_PRIMARY h p \<notin> set (X @ Y)"
    by simp
  then show ?case by blast
qed

lemma drop_append_later:
  "n \<le> length xs \<Longrightarrow> ys = xs @ X \<Longrightarrow>
   n \<le> length ys \<and> (m \<in> set (drop n ys) \<longleftrightarrow> m \<in> set (drop n xs) \<or> m \<in> set X)"
  by auto

lemma switch_msg_invariant:
  assumes "0 < num_servers st" and "length (server_nodes st) = num_servers st"
    and "a < num_servers st"
    and "recovery_run a es st"
    and "n0 \<le> length (sent st)"
    and "Ctrl_msg (secondary_server_id a (num_servers st)) SWITCH_PRIMARY [] 0
           \<in> set (drop n0 (sent st))
           \<longleftrightarrow> updated_primary_accepted (server_nodes st ! a) \<and>
                updated_secondary_accepted (server_nodes st ! a)"
  shows "n0 \<le> length (sent (run_events es st)) \<and>
         (Ctrl_msg (secondary_server_id a (num_servers st)) SWITCH_PRIMARY [] 0
            \<in> set (drop n0 (sent (run_events es st))) \<longleftrightarrow>
          updated_primary_accepted (server_nodes (run_events es st) ! a) \<and>
          updated_secondary_accepted (server_nodes (run_events es st) ! a)) \<and>
         updated_primary_accepted (server_nodes (run_events es st) ! a) =
           (updated_primary_accepted (server_nodes st ! a) \<or>
            (\<exists>e \<in> set es. message_from UPDATED_PRIMARY
                                (secondary_server_id a (num_servers st)) e)) \<and>
         updated_secondary_accepted (server_nodes (run_events es st) ! a) =
           (updated_secondary_accepted (server_nodes st ! a) \<or>
            (\<exists>e \<in> set es. message_from UPDATED_SECONDARY
                                (primary_server_id a (num_servers st)) e))"
  using assms
proof (induction es arbitrary: st)
  case Nil
  then show ?case by simp
next
  case (Cons e es)
  let ?st = "mserver_step e st"
  let ?b = "secondary_server_id a (num_servers st)"
  let ?c = "primary_server_id a (num_servers st)"
  let ?M = "Ctrl_msg ?b SWITCH_PRIMARY [] 0"
  have ok: "recovery_event a st e" and rest: "recovery_run a es ?st"
    using Cons.prems(4) by simp_all
  have step: "n0 \<le> length (sent ?st) \<and>
              (?M \<in> set (drop n0 (sent ?st)) \<longleftrightarrow>
                updated_primary_accepted (server_nodes ?st ! a) \<and>
                updated_secondary_accepted (server_nodes ?st ! a)) \<and>
              updated_primary_accepted (server_nodes ?st ! a) =
                (updated_primary_accepted (server_nodes st ! a) \<or>
                 message_from UPDATED_PRIMARY ?b e) \<and>
              updated_secondary_accepted (server_nodes ?st ! a) =
                (updated_secondary_accepted (server_nodes st ! a) \<or>
                 message_from UPDATED_SECONDARY ?c e)"
  proof (cases e)
    case (Tick env)
    obtain X where X: "sent (check_nodes [0..<num_servers st] env st) = sent st @ X"
      "?M \<notin> set X"
      using check_nodes_send_no_switch by blast
    from drop_append_later [OF Cons.prems(5) X(1), of ?M] X(2)
    have "n0 \<le> length (sent (check_nodes [0..<num_servers st] env st)) \<and>
          (?M \<in> set (drop n0 (sent (check_nodes [0..<num_servers st] env st))) \<longleftrightarrow>
           ?M \<in> set (drop n0 (sent st)))"
      by simp
    with Tick ok Cons.prems(6) check_nodes_acks [of env a st "[0..<num_servers st]"]
    show ?thesis
      by (simp add: failure_detection_def)
  next
    case (Server_msg request env)
    show ?thesis
    proof (cases request)
      case None
      with Server_msg Cons.prems(5,6) show ?thesis
        by (simp add: process_server_message_def)
    next
      case (Some r)
      with Server_msg ok have r: "mreq_server_id r < num_servers st"
        and out: "env_switch env \<noteq> Fd_invalid" by simp_all
      note p = ack_step_primary [OF Cons.prems(1,2,3) r, of env]
      note s = ack_step_secondary [OF Cons.prems(1,2,3) r, of env]
      obtain X where X: "sent (snd (process_server_message (Some r) env st)) = sent st @ X"
        "?M \<in> set X \<longleftrightarrow>
            (mreq_type r = UPDATED_PRIMARY \<and> mreq_server_id r = ?b \<and>
               updated_secondary_accepted (server_nodes st ! a)) \<or>
            (mreq_type r = UPDATED_SECONDARY \<and> mreq_server_id r = ?c \<and>
               updated_primary_accepted (server_nodes st ! a))"
        using switch_msg_step [OF Cons.prems(1,2,3) r out] by blast
      note d = drop_append_later [OF Cons.prems(5) X(1), of ?M]
      from Server_msg Some p s d X(2) Cons.prems(6) show ?thesis
        by auto
    qed
  qed
  from Cons.IH [of ?st] Cons.prems(1,2,3) rest step
  have ih: "n0 \<le> length (sent (run_events es ?st)) \<and>
         (?M \<in> set (drop n0 (sent (run_events es ?st))) \<longleftrightarrow>
          updated_primary_accepted (server_nodes (run_events es ?st) ! a) \<and>
          updated_secondary_accepted (server_nodes (run_events es ?st) ! a)) \<and>
         updated_primary_accepted (server_nodes (run_events es ?st) ! a) =
           (updated_primary_accepted (server_nodes ?st ! a) \<or>
            (\<exists>e \<in> set es. message_from UPDATED_PRIMARY ?b e)) \<and>
         updated_secondary_accepted (server_nodes (run_events es ?st) ! a) =
           (updated_secondary_accepted (server_nodes ?st ! a) \<or>
            (\<exists>e \<in> set es. message_from UPDATED_SECONDARY ?c e))"
    by simp
  from ih step show ?case by auto
qed

lemma respawn_clears_acks:
  assumes "i < length (server_nodes st)"
    and "heartbeat_check_failed (now_check env) (server_nodes st ! i)" and "spawn_ok env"
  shows "\<not> updated_primary_accepted (server_nodes (check_node i env st) ! i) \<and>
         \<not> updated_secondary_accepted (server_nodes (check_node i env st) ! i) \<and>
         \<not> ignore_put (server_nodes (check_node i env st) ! i) \<and>
         server_status (server_nodes (check_node i env st) ! i) = KV_SERVER_RECON"
  using assms by (simp add: check_node_def Let_def node_upd_nth)

text \<open>
  Claim C2. Let \<open>a\<close> be the failed shard, with neither acknowledgment recorded, as the
  detection round leaves it when it respawns \<open>a\<close>. Over any run of server messages and
  of detection rounds that do not respawn \<open>a\<close> again, \<open>SWITCH_PRIMARY\<close> is sent to the
  secondary of \<open>a\<close> in that run exactly when both \<open>UPDATED_PRIMARY\<close> from the secondary
  of \<open>a\<close> and \<open>UPDATED_SECONDARY\<close> from the primary of \<open>a\<close> are among the
  messages. Either acknowledgment alone is only recorded: nothing is sent and no
  \<open>ignore_put\<close> changes. The two in either order run \<open>handle_switch_primary\<close> for \<open>a\<close>
  and its secondary, which sets \<open>ignore_put\<close> on both and sends \<open>SWITCH_PRIMARY\<close>.
\<close>

theorem switch_starts_iff_both_acks:
  assumes "mserver_ok st" and "a < num_servers st"
    and "\<not> updated_primary_accepted (server_nodes st ! a)"
    and "\<not> updated_secondary_accepted (server_nodes st ! a)"
    and "recovery_run a es st"
  shows
    "(Ctrl_msg (secondary_server_id a (num_servers st)) SWITCH_PRIMARY [] 0
        \<in> set (sent_since st (run_events es st)) \<longleftrightarrow>
      (\<exists>e \<in> set es. message_from UPDATED_PRIMARY (secondary_server_id a (num_servers st)) e) \<and>
      (\<exists>e \<in> set es. message_from UPDATED_SECONDARY (primary_server_id a (num_servers st)) e))
     \<and>
     snd (process_server_message
            (Some \<lparr>mreq_type = UPDATED_PRIMARY,
                    mreq_server_id = secondary_server_id a (num_servers st)\<rparr>) env st) =
       node_upd a (\<lambda>n. n\<lparr>updated_primary_accepted := True\<rparr>) st
     \<and>
     snd (process_server_message
            (Some \<lparr>mreq_type = UPDATED_SECONDARY,
                    mreq_server_id = primary_server_id a (num_servers st)\<rparr>) env st) =
       node_upd a (\<lambda>n. n\<lparr>updated_secondary_accepted := True\<rparr>) st
     \<and>
     run_events
       [Server_msg (Some \<lparr>mreq_type = UPDATED_PRIMARY,
                           mreq_server_id = secondary_server_id a (num_servers st)\<rparr>) env,
        Server_msg (Some \<lparr>mreq_type = UPDATED_SECONDARY,
                           mreq_server_id = primary_server_id a (num_servers st)\<rparr>) env'] st =
       handle_switch_primary a (secondary_server_id a (num_servers st))
         (env_switch env') (env_set_secondary env')
         (node_upd a (\<lambda>n. n\<lparr>updated_secondary_accepted := True\<rparr>)
            (node_upd a (\<lambda>n. n\<lparr>updated_primary_accepted := True\<rparr>) st))
     \<and>
     run_events
       [Server_msg (Some \<lparr>mreq_type = UPDATED_SECONDARY,
                           mreq_server_id = primary_server_id a (num_servers st)\<rparr>) env,
        Server_msg (Some \<lparr>mreq_type = UPDATED_PRIMARY,
                           mreq_server_id = secondary_server_id a (num_servers st)\<rparr>) env'] st =
       handle_switch_primary a (secondary_server_id a (num_servers st))
         (env_switch env') (env_set_secondary env')
         (node_upd a (\<lambda>n. n\<lparr>updated_primary_accepted := True\<rparr>)
            (node_upd a (\<lambda>n. n\<lparr>updated_secondary_accepted := True\<rparr>) st))"
proof -
  let ?n = "num_servers st"
  let ?b = "secondary_server_id a ?n"
  let ?c = "primary_server_id a ?n"
  let ?P = "\<lparr>mreq_type = UPDATED_PRIMARY, mreq_server_id = ?b\<rparr>"
  let ?S = "\<lparr>mreq_type = UPDATED_SECONDARY, mreq_server_id = ?c\<rparr>"
  let ?st1 = "node_upd a (\<lambda>n. n\<lparr>updated_primary_accepted := True\<rparr>) st"
  let ?st2 = "node_upd a (\<lambda>n. n\<lparr>updated_secondary_accepted := True\<rparr>) st"
  have n: "0 < ?n" "length (server_nodes st) = ?n"
    using assms(1) by (simp_all add: mserver_ok_def)
  have a: "a < length (server_nodes st)" using n assms(2) by simp
  have pb: "primary_server_id ?b ?n = a" using assms(2) by (simp add: primary_of_secondary)
  have sc: "secondary_server_id ?c ?n = a" using assms(2) by (simp add: secondary_of_primary)
  have trace: "Ctrl_msg ?b SWITCH_PRIMARY [] 0 \<in> set (sent_since st (run_events es st)) \<longleftrightarrow>
      (\<exists>e \<in> set es. message_from UPDATED_PRIMARY ?b e) \<and>
      (\<exists>e \<in> set es. message_from UPDATED_SECONDARY ?c e)"
    using switch_msg_invariant [OF n assms(2) assms(5), of "length (sent st)"] assms(3,4)
    by (simp add: sent_since_def)
  have p1: "snd (process_server_message (Some ?P) env st) = ?st1" for env
    using a pb assms(4) by (simp add: process_updated_primary Let_def)
  have s1: "snd (process_server_message (Some ?S) env st) = ?st2" for env
    using a sc assms(3) by (simp add: process_updated_secondary Let_def)
  have p2: "snd (process_server_message (Some ?P) env' ?st2) =
      handle_switch_primary a ?b (env_switch env') (env_set_secondary env')
        (node_upd a (\<lambda>n. n\<lparr>updated_primary_accepted := True\<rparr>) ?st2)"
    using a pb by (simp add: process_updated_primary Let_def node_upd_nth)
  have s2: "snd (process_server_message (Some ?S) env' ?st1) =
      handle_switch_primary a ?b (env_switch env') (env_set_secondary env')
        (node_upd a (\<lambda>n. n\<lparr>updated_secondary_accepted := True\<rparr>) ?st1)"
    using a sc by (simp add: process_updated_secondary Let_def node_upd_nth)
  show ?thesis
    using trace p1 [of env] s1 [of env] p2 s2 by simp
qed

theorem switch_starts_iff_both_acks_witness:
  "mserver_ok both_acks_mserver \<and> 0 < num_servers both_acks_mserver \<and>
   \<not> updated_primary_accepted (server_nodes both_acks_mserver ! 0) \<and>
   \<not> updated_secondary_accepted (server_nodes both_acks_mserver ! 0) \<and>
   recovery_run 0 both_acks_events both_acks_mserver \<and>
   Ctrl_msg 1 SWITCH_PRIMARY [] 0
     \<in> set (sent_since both_acks_mserver (run_events both_acks_events both_acks_mserver)) \<and>
   Ctrl_msg 1 SWITCH_PRIMARY [] 0
     \<notin> set (sent_since both_acks_mserver
                (run_events (butlast both_acks_events) both_acks_mserver))"
proof -
  have h: "mserver_ok both_acks_mserver" "0 < num_servers both_acks_mserver"
    "\<not> updated_primary_accepted (server_nodes both_acks_mserver ! 0)"
    "\<not> updated_secondary_accepted (server_nodes both_acks_mserver ! 0)"
    by (simp_all add: both_acks_mserver_def two_failures_mserver_def mserver_ok_def
          mserver_eval)
  have n: "num_servers both_acks_mserver = 3"
    by (simp add: both_acks_mserver_def two_failures_mserver_def mserver_eval)
  have e1: "recovery_run 0 both_acks_events both_acks_mserver"
    by (simp add: both_acks_events_def both_acks_mserver_def two_failures_mserver_def
          mserver_eval)
  have e2: "recovery_run 0 (butlast both_acks_events) both_acks_mserver"
    by (simp add: both_acks_events_def both_acks_mserver_def two_failures_mserver_def
          mserver_eval)
  have b: "secondary_server_id 0 3 = 1" and c: "primary_server_id 0 3 = 2"
    by (simp_all add: secondary_server_id_def primary_server_id_def)
  have r1: "\<exists>e \<in> set both_acks_events. message_from UPDATED_PRIMARY 1 e"
    and r2: "\<exists>e \<in> set both_acks_events. message_from UPDATED_SECONDARY 2 e"
    and r3: "\<not> (\<exists>e \<in> set (butlast both_acks_events). message_from UPDATED_PRIMARY 1 e)"
    by (simp_all add: both_acks_events_def)
  from switch_starts_iff_both_acks [OF h e1, THEN conjunct1] r1 r2
  have "Ctrl_msg 1 SWITCH_PRIMARY [] 0
          \<in> set (sent_since both_acks_mserver
                   (run_events both_acks_events both_acks_mserver))"
    unfolding n b c by blast
  moreover from switch_starts_iff_both_acks [OF h e2, THEN conjunct1] r3
  have "Ctrl_msg 1 SWITCH_PRIMARY [] 0
     \<notin> set (sent_since both_acks_mserver
                (run_events (butlast both_acks_events) both_acks_mserver))"
    unfolding n b c by blast
  ultimately show ?thesis using h e1 by simp
qed

section \<open>Locate requests\<close>

lemma locate_ignored:
  "ignore_put (server_nodes st ! locate_server_id H key st) \<Longrightarrow>
   process_client_message H (Some key) st = None"
  by (simp add: process_client_message_def Let_def)

lemma locate_during_switch:
  assumes "length (server_nodes st) = num_servers st" and "Saa < num_servers st"
    and "0 < num_servers st"
    and "key_server_id H key (num_servers st) = Saa"
  shows "process_client_message H (Some key)
           (node_upd (secondary_server_id Saa (num_servers st)) (\<lambda>n. n\<lparr>ignore_put := True\<rparr>)
              (node_upd Saa (\<lambda>n. n\<lparr>ignore_put := True\<rparr>) st)) = None"
proof -
  have "secondary_server_id Saa (num_servers st) < length (server_nodes st)"
    using assms by (simp add: secondary_server_id_less)
  then show ?thesis
    using assms
    by (simp add: process_client_message_def locate_server_id_def Let_def node_upd_nth)
qed

lemma locate_after_switch:
  assumes "length (server_nodes st) = num_servers st" and "Saa < num_servers st"
    and "key_server_id H key (num_servers st) = Saa"
  shows "process_client_message H (Some key)
           (handle_switch_primary Saa Sb out (Replied CTRLREQ_SUCCESS) st) =
         Some \<lparr>resp_host = host_of (host_name (server_nodes st ! Saa)),
               resp_port = cport (server_nodes st ! Saa)\<rparr>"
proof -
  let ?st = "handle_switch_primary Saa Sb out (Replied CTRLREQ_SUCCESS) st"
  have a: "Saa < length (server_nodes st)" using assms by simp
  have s: "server_status (server_nodes ?st ! Saa) = KV_SERVER_ONLINE"
    using a by (simp add: handle_switch_primary_status_eq)
  have i: "\<not> ignore_put (server_nodes ?st ! Saa)"
    using a by (simp add: handle_switch_primary_ignore_put_eq)
  have h: "host_name (server_nodes ?st ! Saa) = host_name (server_nodes st ! Saa)"
    "cport (server_nodes ?st ! Saa) = cport (server_nodes st ! Saa)"
    by (simp_all add: handle_switch_primary_def Let_def case_prod_beta node_upd_nth)
  from s i h assms(3) show ?thesis
    by (simp add: process_client_message_def locate_server_id_def Let_def)
qed

text \<open>
  Claim C6. A locate request whose key is routed to a node with \<open>ignore_put\<close> set gets
  no response; with \<open>ignore_put\<close> set on the replacement and on the surviving secondary,
  as the switch sets it, that holds for every key the replacement's shard owns. When
  \<open>SET_SECONDARY\<close> to the replacement succeeds, the switch ends with \<open>ignore_put\<close>
  cleared on both nodes and the replacement online, and a locate request for a key of
  its shard is answered with the replacement's host and client port.
\<close>

theorem ignore_put_blocks_locate_until_switch_done:
  assumes "mserver_ok st" and "Saa < num_servers st"
    and "Sb = secondary_server_id Saa (num_servers st)"
  shows
    "(ignore_put (server_nodes st ! locate_server_id H key st) \<longrightarrow>
        process_client_message H (Some key) st = None) \<and>
     (key_server_id H key (num_servers st) = Saa \<longrightarrow>
        process_client_message H (Some key)
          (node_upd Sb (\<lambda>n. n\<lparr>ignore_put := True\<rparr>)
             (node_upd Saa (\<lambda>n. n\<lparr>ignore_put := True\<rparr>) st)) = None) \<and>
     \<not> ignore_put
         (server_nodes (handle_switch_primary Saa Sb out (Replied CTRLREQ_SUCCESS) st) ! Saa) \<and>
     \<not> ignore_put
         (server_nodes (handle_switch_primary Saa Sb out (Replied CTRLREQ_SUCCESS) st) ! Sb) \<and>
     server_status
         (server_nodes (handle_switch_primary Saa Sb out (Replied CTRLREQ_SUCCESS) st) ! Saa) =
       KV_SERVER_ONLINE \<and>
     (key_server_id H key (num_servers st) = Saa \<longrightarrow>
        process_client_message H (Some key)
          (handle_switch_primary Saa Sb out (Replied CTRLREQ_SUCCESS) st) =
        Some \<lparr>resp_host = host_of (host_name (server_nodes st ! Saa)),
              resp_port = cport (server_nodes st ! Saa)\<rparr>)"
proof -
  have n: "0 < num_servers st" "length (server_nodes st) = num_servers st"
    using assms(1) by (simp_all add: mserver_ok_def)
  have b: "Sb < length (server_nodes st)"
    using n assms(3) by (simp add: secondary_server_id_less)
  have a: "Saa < length (server_nodes st)" using n assms(2) by simp
  show ?thesis
    using locate_ignored [of st H key] locate_during_switch [OF n(2) assms(2) n(1), of H key]
      locate_after_switch [OF n(2) assms(2), of H key Sb out] a b assms(3)
    by (simp add: handle_switch_primary_ignore_put_eq handle_switch_primary_status_eq)
qed

theorem ignore_put_blocks_locate_until_switch_done_witness:
  "mserver_ok switch_mserver \<and> 0 < num_servers switch_mserver \<and>
   1 = secondary_server_id 0 (num_servers switch_mserver) \<and>
   ignore_put (server_nodes switch_mserver ! locate_server_id example_hash ''abc'' switch_mserver) \<and>
   key_server_id example_hash ''abc'' (num_servers switch_mserver) = 0 \<and>
   process_client_message example_hash (Some ''abc'') switch_mserver = None \<and>
   process_client_message example_hash (Some ''abc'')
     (handle_switch_primary 0 1 Io_failed (Replied CTRLREQ_SUCCESS) switch_mserver) =
     Some \<lparr>resp_host = ''localhost'', resp_port = 6000\<rparr>"
proof -
  have h: "mserver_ok switch_mserver" "0 < num_servers switch_mserver"
    "1 = secondary_server_id 0 (num_servers switch_mserver)"
    by (simp_all add: switch_mserver_def example_mserver_def mserver_ok_def
          secondary_server_id_def)
  have k: "key_server_id example_hash ''abc'' (num_servers switch_mserver) = 0"
    by (simp add: key_server_id_def example_hash_def switch_mserver_def example_mserver_def)
  have i: "ignore_put (server_nodes switch_mserver !
                        locate_server_id example_hash ''abc'' switch_mserver)"
    by (simp add: locate_server_id_def k)
       (simp add: switch_mserver_def example_mserver_def example_node_def
          secondary_server_id_def)
  have v: "host_of (host_name (server_nodes switch_mserver ! 0)) = ''localhost''"
    "cport (server_nodes switch_mserver ! 0) = 6000"
    by (simp_all add: switch_mserver_def example_mserver_def example_node_def host_of_def)
  from ignore_put_blocks_locate_until_switch_done [OF h, of example_hash "''abc''" Io_failed]
    h k i v
  show ?thesis by simp
qed

subsection \<open>A switch whose last request fails\<close>

lemma check_node_keeps_ignore_put:
  assumes "ignore_put (server_nodes st ! i)"
    and "\<not> (heartbeat_check_failed (now_check (env i)) (server_nodes st ! i) \<and> spawn_ok (env i))"
  shows "ignore_put (server_nodes (check_node j (env j) st) ! i) \<and>
         \<not> (heartbeat_check_failed (now_check (env i))
               (server_nodes (check_node j (env j) st) ! i) \<and> spawn_ok (env i))"
proof (cases "j = i")
  case False
  with assms show ?thesis by (simp add: check_node_other)
next
  case True
  with assms show ?thesis
    by (auto simp: check_node_def Let_def node_upd_nth heartbeat_check_failed_def)
qed

lemma check_nodes_keep_ignore_put:
  assumes "ignore_put (server_nodes st ! i)"
    and "\<not> (heartbeat_check_failed (now_check (env i)) (server_nodes st ! i) \<and> spawn_ok (env i))"
  shows "ignore_put (server_nodes (check_nodes js env st) ! i)"
  using assms
proof (induction js arbitrary: st)
  case Nil
  then show ?case by simp
next
  case (Cons j js)
  from check_node_keeps_ignore_put [of st i env j] Cons.prems
  show ?case by (simp add: Cons.IH)
qed

lemma process_server_message_switch_of:
  assumes "0 < num_servers st" and "length (server_nodes st) = num_servers st"
  shows "snd (process_server_message (Some r) env st) =
     (case mreq_type r of
        HEARTBEAT \<Rightarrow>
          node_upd (mreq_server_id r) (\<lambda>n. n\<lparr>last_heartbeat := env_time env\<rparr>) st
      | UPDATED_PRIMARY \<Rightarrow>
          (case switch_of st r of
             None \<Rightarrow>
               node_upd (primary_server_id (mreq_server_id r) (num_servers st))
                 (\<lambda>n. n\<lparr>updated_primary_accepted := True\<rparr>) st
           | Some (Saa, Sb) \<Rightarrow>
               handle_switch_primary Saa Sb (env_switch env) (env_set_secondary env)
                 (node_upd Saa (\<lambda>n. n\<lparr>updated_primary_accepted := True\<rparr>) st))
      | UPDATED_SECONDARY \<Rightarrow>
          (case switch_of st r of
             None \<Rightarrow>
               node_upd (secondary_server_id (mreq_server_id r) (num_servers st))
                 (\<lambda>n. n\<lparr>updated_secondary_accepted := True\<rparr>) st
           | Some (Saa, Sb) \<Rightarrow>
               handle_switch_primary Saa Sb (env_switch env) (env_set_secondary env)
                 (node_upd Saa (\<lambda>n. n\<lparr>updated_secondary_accepted := True\<rparr>) st))
      | _ \<Rightarrow> st)"
proof -
  have p: "primary_server_id (mreq_server_id r) (num_servers st) < length (server_nodes st)"
    using assms by (simp add: primary_server_id_less)
  have s: "secondary_server_id (mreq_server_id r) (num_servers st) < length (server_nodes st)"
    using assms by (simp add: secondary_server_id_less)
  show ?thesis
  proof (cases "mreq_type r")
    case UPDATED_PRIMARY
    with p show ?thesis
      by (simp add: process_updated_primary switch_of_def Let_def)
  next
    case UPDATED_SECONDARY
    with s show ?thesis
      by (simp add: process_updated_secondary switch_of_def Let_def)
  qed (simp_all add: process_server_message_def)
qed

lemma quiet_message_keeps_ignore_put:
  assumes "0 < num_servers st" and "length (server_nodes st) = num_servers st"
    and "ignore_put (server_nodes st ! i)"
    and "quiet_event i st (Server_msg (Some r) env)"
  shows "ignore_put (server_nodes (snd (process_server_message (Some r) env st)) ! i)"
proof (cases "switch_of st r")
  case None
  with assms(3) show ?thesis
    unfolding process_server_message_switch_of [OF assms(1,2)]
    by (cases "mreq_type r") (auto simp: node_upd_nth)
next
  case (Some p)
  obtain Saa Sb where p: "p = (Saa, Sb)" by (cases p)
  from assms(4) Some p
  have q: "env_set_secondary env \<noteq> Replied CTRLREQ_SUCCESS \<or> (i \<noteq> Saa \<and> i \<noteq> Sb)"
    by simp
  from Some have t: "mreq_type r = UPDATED_PRIMARY \<or> mreq_type r = UPDATED_SECONDARY"
    by (cases "mreq_type r") (simp_all add: switch_of_def)
  from t Some p q assms(3) show ?thesis
    unfolding process_server_message_switch_of [OF assms(1,2)]
    by (auto simp: handle_switch_primary_ignore_put_eq node_upd_nth)
qed

lemma quiet_event_keeps_ignore_put:
  assumes "0 < num_servers st" and "length (server_nodes st) = num_servers st"
    and "ignore_put (server_nodes st ! i)" and "quiet_event i st e"
  shows "ignore_put (server_nodes (mserver_step e st) ! i)"
proof (cases e)
  case (Tick env)
  with assms show ?thesis
    by (simp add: failure_detection_def check_nodes_keep_ignore_put)
next
  case (Server_msg request env)
  show ?thesis
  proof (cases request)
    case None
    with Server_msg assms show ?thesis by (simp add: process_server_message_def)
  next
    case (Some r)
    with Server_msg assms quiet_message_keeps_ignore_put [of st i r env]
    show ?thesis by simp
  qed
qed

lemma quiet_run_keeps_ignore_put:
  assumes "0 < num_servers st" and "length (server_nodes st) = num_servers st"
    and "ignore_put (server_nodes st ! i)" and "quiet_run i es st"
  shows "ignore_put (server_nodes (run_events es st) ! i)"
  using assms
proof (induction es arbitrary: st)
  case Nil
  then show ?case by simp
next
  case (Cons e es)
  from Cons.prems have "ignore_put (server_nodes (mserver_step e st) ! i)"
    by (simp add: quiet_event_keeps_ignore_put)
  with Cons.prems Cons.IH [of "mserver_step e st"] show ?case by simp
qed

text \<open>
  Claim C10 as stated fails, in two ways. After the failed switch the surviving
  secondary stops sending heartbeats, the detector respawns it and clears its
  \<open>ignore_put\<close>, and a locate request for a key of the replacement's shard, routed to
  that secondary, is answered. Or the acknowledgment comes again, the switch runs again
  and succeeds, and the same request is answered with the replacement.
\<close>

theorem failed_switch_drop_ends_counterexample:
  "ignore_put (server_nodes (run_events [failed_switch_event] failed_switch_mserver) ! 0) \<and>
   ignore_put (server_nodes (run_events [failed_switch_event] failed_switch_mserver) ! 1) \<and>
   server_status (server_nodes (run_events [failed_switch_event] failed_switch_mserver) ! 0) =
     KV_SERVER_RECON \<and>
   process_client_message example_hash (Some ''abc'')
     (run_events [failed_switch_event] failed_switch_mserver) = None \<and>
   locate_server_id example_hash ''abc''
     (run_events [failed_switch_event, Tick (example_tick 1010 True)] failed_switch_mserver) = 1 \<and>
   process_client_message example_hash (Some ''abc'')
     (run_events [failed_switch_event, Tick (example_tick 1010 True)] failed_switch_mserver) =
     Some \<lparr>resp_host = ''localhost'', resp_port = 6001\<rparr> \<and>
   locate_server_id example_hash ''abc''
     (run_events [failed_switch_event,
        Server_msg (Some \<lparr>mreq_type = UPDATED_SECONDARY, mreq_server_id = 2\<rparr>)
          (example_msg_env 1010 (Replied CTRLREQ_SUCCESS))] failed_switch_mserver) = 0 \<and>
   process_client_message example_hash (Some ''abc'')
     (run_events [failed_switch_event,
        Server_msg (Some \<lparr>mreq_type = UPDATED_SECONDARY, mreq_server_id = 2\<rparr>)
          (example_msg_env 1010 (Replied CTRLREQ_SUCCESS))] failed_switch_mserver) =
     Some \<lparr>resp_host = ''localhost'', resp_port = 6000\<rparr>"
  by (simp add: failed_switch_mserver_def failed_switch_event_def mserver_eval)

text \<open>
  Claim C10, as the code has it. When \<open>SET_SECONDARY\<close> to the replacement fails, the
  switch handler returns with \<open>ignore_put\<close> set on the replacement and on the surviving
  secondary and with the replacement's status as it was. After any run of events in
  which the detector respawns neither of the two and no switch that one of the two
  takes part in succeeds, a locate request routed to either of them gets no response.
  Heartbeats, failure reports, acknowledgments that only record a flag, switches of
  other nodes and switches that fail again are such events.
\<close>

theorem failed_switch_keeps_locates_dropped:
  assumes "mserver_ok st" and "Saa < num_servers st"
    and "Sb = secondary_server_id Saa (num_servers st)"
    and "out_set \<noteq> Replied CTRLREQ_SUCCESS"
    and "quiet_run Saa es (handle_switch_primary Saa Sb out out_set st)"
    and "quiet_run Sb es (handle_switch_primary Saa Sb out out_set st)"
    and "locate_server_id H key (run_events es (handle_switch_primary Saa Sb out out_set st)) = Saa
         \<or> locate_server_id H key (run_events es (handle_switch_primary Saa Sb out out_set st)) = Sb"
  shows "ignore_put (server_nodes (handle_switch_primary Saa Sb out out_set st) ! Saa) \<and>
         ignore_put (server_nodes (handle_switch_primary Saa Sb out out_set st) ! Sb) \<and>
         server_status (server_nodes (handle_switch_primary Saa Sb out out_set st) ! Saa) =
           server_status (server_nodes st ! Saa) \<and>
         process_client_message H (Some key)
           (run_events es (handle_switch_primary Saa Sb out out_set st)) = None"
proof -
  let ?st = "handle_switch_primary Saa Sb out out_set st"
  have n: "0 < num_servers st" "length (server_nodes st) = num_servers st"
    using assms(1) by (simp_all add: mserver_ok_def)
  have n': "0 < num_servers ?st" "length (server_nodes ?st) = num_servers ?st"
    using n by simp_all
  have b: "Sb < length (server_nodes st)"
    using n assms(3) by (simp add: secondary_server_id_less)
  have a: "Saa < length (server_nodes st)" using n assms(2) by simp
  have ia: "ignore_put (server_nodes ?st ! Saa)" and ib: "ignore_put (server_nodes ?st ! Sb)"
    using a b assms(4) by (simp_all add: handle_switch_primary_ignore_put_eq)
  have s: "server_status (server_nodes ?st ! Saa) = server_status (server_nodes st ! Saa)"
    using assms(4) by (simp add: handle_switch_primary_status_eq)
  have "ignore_put (server_nodes (run_events es ?st) ! Saa)"
    "ignore_put (server_nodes (run_events es ?st) ! Sb)"
    using quiet_run_keeps_ignore_put [OF n' ia assms(5)]
      quiet_run_keeps_ignore_put [OF n' ib assms(6)]
    by simp_all
  with assms(7) have "process_client_message H (Some key) (run_events es ?st) = None"
    by (auto intro: locate_ignored)
  with ia ib s show ?thesis by simp
qed

theorem failed_switch_keeps_locates_dropped_witness:
  "mserver_ok switch_mserver \<and> 0 < num_servers switch_mserver \<and>
   1 = secondary_server_id 0 (num_servers switch_mserver) \<and>
   Io_failed \<noteq> Replied CTRLREQ_SUCCESS \<and>
   quiet_run 0 quiet_events (handle_switch_primary 0 1 Io_failed Io_failed switch_mserver) \<and>
   quiet_run 1 quiet_events (handle_switch_primary 0 1 Io_failed Io_failed switch_mserver) \<and>
   locate_server_id example_hash ''abc''
     (run_events quiet_events (handle_switch_primary 0 1 Io_failed Io_failed switch_mserver)) = 1 \<and>
   ignore_put (server_nodes (handle_switch_primary 0 1 Io_failed Io_failed switch_mserver) ! 0) \<and>
   server_status (server_nodes (handle_switch_primary 0 1 Io_failed Io_failed switch_mserver) ! 0)
     = KV_SERVER_RECON \<and>
   process_client_message example_hash (Some ''abc'')
     (run_events quiet_events (handle_switch_primary 0 1 Io_failed Io_failed switch_mserver)) = None"
proof -
  let ?st = "handle_switch_primary 0 1 Io_failed Io_failed switch_mserver"
  have h: "mserver_ok switch_mserver" "0 < num_servers switch_mserver"
    "1 = secondary_server_id 0 (num_servers switch_mserver)"
    "Io_failed \<noteq> Replied CTRLREQ_SUCCESS"
    by (simp_all add: switch_mserver_def example_mserver_def mserver_ok_def
          secondary_server_id_def)
  have q: "quiet_run 0 quiet_events ?st" "quiet_run 1 quiet_events ?st"
    by (simp_all add: quiet_events_def switch_mserver_def switch_of_def mserver_eval)
  have l: "locate_server_id example_hash ''abc'' (run_events quiet_events ?st) = 1"
    by (simp add: quiet_events_def switch_mserver_def mserver_eval)
  have s: "server_status (server_nodes switch_mserver ! 0) = KV_SERVER_RECON"
    by (simp add: switch_mserver_def example_mserver_def example_node_def)
  from failed_switch_keeps_locates_dropped [OF h q, of example_hash "''abc''"] l h q s
  show ?thesis by simp
qed

subsection \<open>Which server a locate request names\<close>




lemma check_node_static:
  "host_name (server_nodes (check_node i env st) ! j) = host_name (server_nodes st ! j) \<and>
   cport (server_nodes (check_node i env st) ! j) = cport (server_nodes st ! j)"
  by (simp add: check_node_def Let_def node_upd_nth)

lemma check_nodes_static:
  "host_name (server_nodes (check_nodes js env st) ! j) = host_name (server_nodes st ! j) \<and>
   cport (server_nodes (check_nodes js env st) ! j) = cport (server_nodes st ! j)"
  by (induction js arbitrary: st) (simp_all add: check_node_static)

lemma handle_switch_primary_static:
  "host_name (server_nodes (handle_switch_primary a b o1 o2 st) ! j) =
     host_name (server_nodes st ! j) \<and>
   cport (server_nodes (handle_switch_primary a b o1 o2 st) ! j) = cport (server_nodes st ! j)"
  by (simp add: handle_switch_primary_def Let_def case_prod_beta node_upd_nth)

lemma process_server_message_static:
  "host_name (server_nodes (snd (process_server_message request env st)) ! j) =
     host_name (server_nodes st ! j) \<and>
   cport (server_nodes (snd (process_server_message request env st)) ! j) =
     cport (server_nodes st ! j)"
proof (cases request)
  case None
  then show ?thesis by (simp add: process_server_message_def)
next
  case (Some r)
  then show ?thesis
    by (cases "mreq_type r")
       (simp_all add: process_server_message_def Let_def node_upd_nth
          handle_switch_primary_static)
qed

lemma mserver_step_static:
  "host_name (server_nodes (mserver_step e st) ! j) = host_name (server_nodes st ! j) \<and>
   cport (server_nodes (mserver_step e st) ! j) = cport (server_nodes st ! j)"
  by (cases e) (simp_all add: failure_detection_def check_nodes_static
        process_server_message_static)

lemma run_events_static:
  "host_name (server_nodes (run_events es st) ! j) = host_name (server_nodes st ! j) \<and>
   cport (server_nodes (run_events es st) ! j) = cport (server_nodes st ! j)"
  by (induction es arbitrary: st) (simp_all add: mserver_step_static)

text \<open>
  Claim C8 as stated fails, in two ways. The same key with the same number of servers
  is answered with server 0 before server 0 fails and with server 1 after the detector
  has respawned it; and a key that is answered before a switch fails gets no answer
  after it.
\<close>

theorem locate_depends_on_history_counterexample:
  "num_servers (run_events [Tick (example_tick 1003 True)] two_failures_mserver) =
     num_servers two_failures_mserver \<and>
   process_client_message example_hash (Some ''abc'') two_failures_mserver =
     Some \<lparr>resp_host = ''localhost'', resp_port = 6000\<rparr> \<and>
   process_client_message example_hash (Some ''abc'')
     (run_events [Tick (example_tick 1003 True)] two_failures_mserver) =
     Some \<lparr>resp_host = ''localhost'', resp_port = 6001\<rparr> \<and>
   num_servers (run_events [failed_switch_event] failed_switch_mserver) =
     num_servers failed_switch_mserver \<and>
   process_client_message example_hash (Some ''abc'') failed_switch_mserver =
     Some \<lparr>resp_host = ''localhost'', resp_port = 6001\<rparr> \<and>
   process_client_message example_hash (Some ''abc'')
     (run_events [failed_switch_event] failed_switch_mserver) = None"
  by (simp add: two_failures_mserver_def failed_switch_mserver_def failed_switch_event_def
        mserver_eval)

text \<open>
  Claim C8, as the code has it. Host names and client ports never change. Two locate
  requests for the same key, with any run of detection rounds and server messages
  between them, get the same answer when the key's owner is online at both times or at
  neither, and \<open>ignore_put\<close> of the server the key is routed to is the same at both
  times. Through these two fields, and through nothing else, the answer depends on
  what happened before.
\<close>

theorem locate_same_status_same_answer:
  assumes "mserver_ok st"
    and "\<forall>e \<in> set es. event_in_range (num_servers st) e"
    and "(server_status (server_nodes (run_events es st) ! key_server_id H key (num_servers st))
            = KV_SERVER_ONLINE) =
         (server_status (server_nodes st ! key_server_id H key (num_servers st))
            = KV_SERVER_ONLINE)"
    and "ignore_put (server_nodes (run_events es st) ! locate_server_id H key st) =
         ignore_put (server_nodes st ! locate_server_id H key st)"
  shows "process_client_message H (Some key) (run_events es st) =
           process_client_message H (Some key) st \<and>
         host_name (server_nodes (run_events es st) ! j) = host_name (server_nodes st ! j) \<and>
         cport (server_nodes (run_events es st) ! j) = cport (server_nodes st ! j)"
proof -
  have "locate_server_id H key (run_events es st) = locate_server_id H key st"
    using assms(3) by (simp add: locate_server_id_def Let_def)
  with assms(4) run_events_static [of es st "locate_server_id H key st"]
  have "process_client_message H (Some key) (run_events es st) =
          process_client_message H (Some key) st"
    by (simp add: process_client_message_def Let_def)
  with run_events_static [of es st j] show ?thesis by simp
qed

theorem locate_same_status_same_answer_witness:
  "mserver_ok two_failures_mserver \<and>
   list_all (event_in_range (num_servers two_failures_mserver)) recovery_events \<and>
   server_status (server_nodes two_failures_mserver ! 0) = KV_SERVER_ONLINE \<and>
   server_status (server_nodes (run_events (butlast recovery_events) two_failures_mserver) ! 0)
     = KV_SERVER_RECON \<and>
   server_status (server_nodes (run_events recovery_events two_failures_mserver) ! 0)
     = KV_SERVER_ONLINE \<and>
   process_client_message example_hash (Some ''abc'')
     (run_events recovery_events two_failures_mserver) =
     Some \<lparr>resp_host = ''localhost'', resp_port = 6000\<rparr>"
proof -
  let ?st = "run_events recovery_events two_failures_mserver"
  have h: "mserver_ok two_failures_mserver"
    "\<forall>e \<in> set recovery_events. event_in_range (num_servers two_failures_mserver) e"
    by (simp_all add: two_failures_mserver_def mserver_ok_def example_mserver_def
          recovery_events_def)
  have k: "key_server_id example_hash ''abc'' (num_servers two_failures_mserver) = 0"
    and l: "locate_server_id example_hash ''abc'' two_failures_mserver = 0"
    by (simp_all add: two_failures_mserver_def mserver_eval)
  have s: "server_status (server_nodes two_failures_mserver ! 0) = KV_SERVER_ONLINE"
    "server_status (server_nodes (run_events (butlast recovery_events) two_failures_mserver) ! 0)
       = KV_SERVER_RECON"
    "server_status (server_nodes ?st ! 0) = KV_SERVER_ONLINE"
    "ignore_put (server_nodes ?st ! 0) = ignore_put (server_nodes two_failures_mserver ! 0)"
    by (simp_all add: two_failures_mserver_def recovery_events_def mserver_eval)
  have a: "process_client_message example_hash (Some ''abc'') two_failures_mserver =
     Some \<lparr>resp_host = ''localhost'', resp_port = 6000\<rparr>"
    by (simp add: two_failures_mserver_def mserver_eval)
  from locate_same_status_same_answer [where H = example_hash and key = "''abc''",
      OF h, THEN conjunct1] k l s a
  have "process_client_message example_hash (Some ''abc'') ?st =
     Some \<lparr>resp_host = ''localhost'', resp_port = 6000\<rparr>"
    by simp
  with h s show ?thesis by (simp add: list_all_iff)
qed

section \<open>Client requests at the key-value server\<close>

lemmas server_eval =
  example_server_def example_put_env_def example_hash_def process_client_message_srv_def
  process_server_message_srv_def send_table_task_def send_table_iterator_f_def
  strncpy_value_def hash_get_def hash_put_def reply_def key_server_id_def
  secondary_server_id_def Let_def

lemma hash_get_insert: "hash_get (hash_insert table key v) key = Some v"
  by (induction table) (auto simp: hash_get_def)

lemma hash_get_insert_other:
  "k \<noteq> key \<Longrightarrow> hash_get (hash_insert table key v) k = hash_get table k"
  by (induction table) (auto simp: hash_get_def)

lemma foreign_key_rejected:
  assumes "key_server_id H (req_key r) (kv_num_servers st) \<noteq> server_id st"
    and "\<not> (kv_state st = KV_UPDATING_PRIMARY \<and>
             secondary_server_id (key_server_id H (req_key r) (kv_num_servers st))
               (kv_num_servers st) = server_id st)"
  shows "process_client_message_srv H (Some r) env st = ([reply SERVER_FAILURE], st)"
  using assms by (auto simp: process_client_message_srv_def Let_def)

lemma interim_primary_serves:
  assumes "key_server_id H (req_key r) (kv_num_servers st) \<noteq> server_id st"
    and "kv_state st = KV_UPDATING_PRIMARY"
    and "secondary_server_id (key_server_id H (req_key r) (kv_num_servers st))
           (kv_num_servers st) = server_id st"
  shows "reply SERVER_FAILURE \<notin> set (fst (process_client_message_srv H (Some r) env st))"
    and "req_type r = OP_GET \<Longrightarrow>
         process_client_message_srv H (Some r) env st =
           (case hash_get (secondary_hash st) (req_key r) of
              None \<Rightarrow> ([reply KEY_NOT_FOUND], st)
            | Some data \<Rightarrow> ([Client_reply \<lparr>resp_status = SUCCESS, resp_value = data\<rparr>], st))"
  using assms
  by (auto simp: process_client_message_srv_def Let_def reply_def hash_put_def
        split: op_type.splits option.splits forward_outcome.splits)

lemma own_key_not_held:
  assumes "2 \<le> kv_num_servers st" and "server_id st < kv_num_servers st"
    and "key_server_id H (req_key r) (kv_num_servers st) = server_id st"
    and "req_type r = OP_GET"
    and "hash_get (primary_hash st) (req_key r) = None"
  shows "process_client_message_srv H (Some r) env st = ([reply KEY_NOT_FOUND], st)"
proof -
  have "secondary_server_id (server_id st) (kv_num_servers st) \<noteq> server_id st"
    using assms(1,2) by (rule secondary_server_id_neq)
  with assms(3,4,5) show ?thesis
    by (simp add: process_client_message_srv_def Let_def)
qed

text \<open>
  Claim C7 as stated fails. Server 1 of three owns \<open>''abcd''\<close> and does not hold it. A
  GET for it that the client thread picks up while the state is
  \<open>KV_SWITCHING_PRIMARY\<close> is answered \<open>SERVER_FAILURE\<close>, not \<open>KEY_NOT_FOUND\<close>.
\<close>

theorem switching_rejects_own_key_counterexample:
  "key_server_id example_hash (req_key (example_get ''abcd''))
     (kv_num_servers (example_server 1 KV_SWITCHING_PRIMARY [] [])) =
     server_id (example_server 1 KV_SWITCHING_PRIMARY [] []) \<and>
   hash_get (primary_hash (example_server 1 KV_SWITCHING_PRIMARY [] []))
     (req_key (example_get ''abcd'')) = None \<and>
   process_client_task_step example_hash (Some (example_get ''abcd''))
       (example_put_env Forward_fd_invalid) (example_server 1 KV_SWITCHING_PRIMARY [] []) =
     ([reply SERVER_FAILURE], example_server 1 KV_SWITCHING_PRIMARY [] [])"
  by (simp add: process_client_task_step_def example_get_def server_eval)

text \<open>
  Claim C7, as the code has it. Of a GET or PUT that the client thread picks up: for a
  key whose owner is another server the answer is \<open>SERVER_FAILURE\<close>, and nothing else is
  done, unless the server is in state \<open>KV_UPDATING_PRIMARY\<close> and is the secondary of the
  key's owner; then the request is served from the secondary table and the answer is
  not \<open>SERVER_FAILURE\<close>. A GET for a key the server owns and does not hold in its primary
  table is answered \<open>KEY_NOT_FOUND\<close> in every state but \<open>KV_SWITCHING_PRIMARY\<close>; in that
  state the client thread answers every request \<open>SERVER_FAILURE\<close>. The handler
  \<^verbatim>\<open>process_client_message\<close> itself, which the flush of \<^verbatim>\<open>SWITCH_PRIMARY\<close> calls
  directly, gives these answers in every state, \<open>KEY_NOT_FOUND\<close> included.
\<close>

theorem client_request_owner_check:
  assumes "3 \<le> kv_num_servers st" and "server_id st < kv_num_servers st"
    and "req_type r = OP_GET \<or> req_type r = OP_PUT"
  shows
    "(key_server_id H (req_key r) (kv_num_servers st) \<noteq> server_id st \<and>
      \<not> (kv_state st = KV_UPDATING_PRIMARY \<and>
          secondary_server_id (key_server_id H (req_key r) (kv_num_servers st))
            (kv_num_servers st) = server_id st)
      \<longrightarrow> process_client_task_step H (Some r) env st = ([reply SERVER_FAILURE], st) \<and>
          process_client_message_srv H (Some r) env st = ([reply SERVER_FAILURE], st)) \<and>
     (key_server_id H (req_key r) (kv_num_servers st) \<noteq> server_id st \<and>
      kv_state st = KV_UPDATING_PRIMARY \<and>
      secondary_server_id (key_server_id H (req_key r) (kv_num_servers st))
        (kv_num_servers st) = server_id st
      \<longrightarrow> process_client_task_step H (Some r) env st =
            process_client_message_srv H (Some r) env st \<and>
          reply SERVER_FAILURE \<notin> set (fst (process_client_message_srv H (Some r) env st)) \<and>
          (req_type r = OP_GET \<longrightarrow>
             process_client_message_srv H (Some r) env st =
               (case hash_get (secondary_hash st) (req_key r) of
                  None \<Rightarrow> ([reply KEY_NOT_FOUND], st)
                | Some data \<Rightarrow>
                    ([Client_reply \<lparr>resp_status = SUCCESS, resp_value = data\<rparr>], st)))) \<and>
     (key_server_id H (req_key r) (kv_num_servers st) = server_id st \<and>
      req_type r = OP_GET \<and> hash_get (primary_hash st) (req_key r) = None
      \<longrightarrow> process_client_message_srv H (Some r) env st = ([reply KEY_NOT_FOUND], st) \<and>
          process_client_task_step H (Some r) env st =
            (if kv_state st = KV_SWITCHING_PRIMARY then ([reply SERVER_FAILURE], st)
             else ([reply KEY_NOT_FOUND], st))) \<and>
     (kv_state st = KV_SWITCHING_PRIMARY
      \<longrightarrow> process_client_task_step H request env st = ([reply SERVER_FAILURE], st))"
proof -
  have n: "2 \<le> kv_num_servers st" using assms(1) by simp
  show ?thesis
    using foreign_key_rejected [of H r st env] interim_primary_serves [of H r st env]
      own_key_not_held [OF n assms(2), of H r env]
    by (auto simp: process_client_task_step_def)
qed

theorem client_request_owner_check_witness:
  "3 \<le> kv_num_servers (example_server 1 KV_SERVER_ONLINE [] [(''abc'', ''red'')]) \<and>
   server_id (example_server 1 KV_SERVER_ONLINE [] [(''abc'', ''red'')]) <
     kv_num_servers (example_server 1 KV_SERVER_ONLINE [] [(''abc'', ''red'')]) \<and>
   req_type (example_get ''abc'') = OP_GET \<and>
   process_client_task_step example_hash (Some (example_get ''abc''))
       (example_put_env Forward_fd_invalid)
       (example_server 1 KV_SERVER_ONLINE [] [(''abc'', ''red'')]) =
     ([reply SERVER_FAILURE], example_server 1 KV_SERVER_ONLINE [] [(''abc'', ''red'')]) \<and>
   process_client_task_step example_hash (Some (example_get ''abc''))
       (example_put_env Forward_fd_invalid)
       (example_server 1 KV_UPDATING_PRIMARY [] [(''abc'', ''red'')]) =
     ([Client_reply \<lparr>resp_status = SUCCESS, resp_value = ''red''\<rparr>],
      example_server 1 KV_UPDATING_PRIMARY [] [(''abc'', ''red'')]) \<and>
   process_client_task_step example_hash (Some (example_get ''abcd''))
       (example_put_env Forward_fd_invalid)
       (example_server 1 KV_SERVER_ONLINE [] [(''abc'', ''red'')]) =
     ([reply KEY_NOT_FOUND], example_server 1 KV_SERVER_ONLINE [] [(''abc'', ''red'')]) \<and>
   process_client_message_srv example_hash (Some (example_get ''abcd''))
       (example_put_env Forward_fd_invalid)
       (example_server 1 KV_SWITCHING_PRIMARY [] [(''abc'', ''red'')]) =
     ([reply KEY_NOT_FOUND], example_server 1 KV_SWITCHING_PRIMARY [] [(''abc'', ''red'')])"
proof -
  let ?on = "example_server 1 KV_SERVER_ONLINE [] [(''abc'', ''red'')]"
  let ?up = "example_server 1 KV_UPDATING_PRIMARY [] [(''abc'', ''red'')]"
  let ?sw = "example_server 1 KV_SWITCHING_PRIMARY [] [(''abc'', ''red'')]"
  have h: "3 \<le> kv_num_servers ?on" "server_id ?on < kv_num_servers ?on"
    "3 \<le> kv_num_servers ?up" "server_id ?up < kv_num_servers ?up"
    "3 \<le> kv_num_servers ?sw" "server_id ?sw < kv_num_servers ?sw"
    by (simp_all add: example_server_def)
  have g: "req_type (example_get k) = OP_GET \<or> req_type (example_get k) = OP_PUT" for k
    by (simp add: example_get_def)
  have k: "key_server_id example_hash (req_key (example_get ''abc'')) 3 = 0"
    "key_server_id example_hash (req_key (example_get ''abcd'')) 3 = 1"
    "secondary_server_id 0 3 = 1"
    by (simp_all add: example_get_def key_server_id_def example_hash_def
          secondary_server_id_def)
  have f: "kv_num_servers ?on = 3" "kv_num_servers ?up = 3" "kv_num_servers ?sw = 3"
    "server_id ?on = 1" "server_id ?up = 1" "server_id ?sw = 1"
    "kv_state ?on = KV_SERVER_ONLINE" "kv_state ?up = KV_UPDATING_PRIMARY"
    "kv_state ?sw = KV_SWITCHING_PRIMARY"
    "hash_get (primary_hash ?on) (req_key (example_get ''abcd'')) = None"
    "hash_get (primary_hash ?sw) (req_key (example_get ''abcd'')) = None"
    "hash_get (secondary_hash ?up) (req_key (example_get ''abc'')) = Some ''red''"
    "req_type (example_get ''abc'') = OP_GET" "req_type (example_get ''abcd'') = OP_GET"
    by (simp_all add: example_server_def example_get_def hash_get_def)
  note a = client_request_owner_check [where r = "example_get ''abc''" and H = example_hash
      and env = "example_put_env Forward_fd_invalid", OF h(1,2) g, THEN conjunct1]
  note b = client_request_owner_check [where r = "example_get ''abc''" and H = example_hash
      and env = "example_put_env Forward_fd_invalid", OF h(3,4) g,
      THEN conjunct2, THEN conjunct1]
  note c = client_request_owner_check [where r = "example_get ''abcd''" and H = example_hash
      and env = "example_put_env Forward_fd_invalid", OF h(1,2) g,
      THEN conjunct2, THEN conjunct2, THEN conjunct1]
  note d = client_request_owner_check [where r = "example_get ''abcd''" and H = example_hash
      and env = "example_put_env Forward_fd_invalid", OF h(5,6) g,
      THEN conjunct2, THEN conjunct2, THEN conjunct1]
  from a k f have 1: "process_client_task_step example_hash (Some (example_get ''abc''))
       (example_put_env Forward_fd_invalid) ?on = ([reply SERVER_FAILURE], ?on)"
    by simp
  from b k f have 2: "process_client_task_step example_hash (Some (example_get ''abc''))
       (example_put_env Forward_fd_invalid) ?up =
     ([Client_reply \<lparr>resp_status = SUCCESS, resp_value = ''red''\<rparr>], ?up)"
    by simp
  from c k f have 3: "process_client_task_step example_hash (Some (example_get ''abcd''))
       (example_put_env Forward_fd_invalid) ?on = ([reply KEY_NOT_FOUND], ?on)"
    by simp
  from d k f have 4: "process_client_message_srv example_hash (Some (example_get ''abcd''))
       (example_put_env Forward_fd_invalid) ?sw = ([reply KEY_NOT_FOUND], ?sw)"
    by simp
  from 1 2 3 4 h f show ?thesis by simp
qed

text \<open>
  Claim C1 as stated fails. Server 0 of three holds \<open>''abc''\<close> and gets a PUT for it;
  the forward to the secondary is made and the partner replies \<open>SERVER_FAILURE\<close>, or the
  receive on that connection fails. The request is forwarded, the new value is in the
  primary table, and nothing is sent to the client: no \<open>SERVER_FAILURE\<close> reply.
\<close>

theorem failed_forward_no_reply_counterexample:
  "process_client_message_srv example_hash (Some (example_put ''abc'' ''new''))
       (example_put_env (Forward_replied SERVER_FAILURE))
       (example_server 0 KV_SERVER_ONLINE [(''abc'', ''old'')] []) =
     ([Peer_send Secondary_fd (example_put ''abc'' ''new'')],
      example_server 0 KV_SERVER_ONLINE [(''abc'', ''new'')] []) \<and>
   reply SERVER_FAILURE \<notin> set (fst
     (process_client_message_srv example_hash (Some (example_put ''abc'' ''new''))
        (example_put_env (Forward_replied SERVER_FAILURE))
        (example_server 0 KV_SERVER_ONLINE [(''abc'', ''old'')] []))) \<and>
   process_client_message_srv example_hash (Some (example_put ''abc'' ''new''))
       (example_put_env Forward_recv_failed)
       (example_server 0 KV_SERVER_ONLINE [(''abc'', ''old'')] []) =
     ([Peer_send Secondary_fd (example_put ''abc'' ''new'')],
      example_server 0 KV_SERVER_ONLINE [(''abc'', ''new'')] [])"
  by (simp add: example_put_def server_eval)

text \<open>
  Claim C1, as the code has it. For a PUT that the server accepts and stores, when the
  forward is made and the receive on the partner's connection fails or the partner's
  status is not \<open>SUCCESS\<close>: the forwarded request is all the handler writes, so the
  client gets no response, neither \<open>SUCCESS\<close> nor \<open>SERVER_FAILURE\<close>; and the table the
  PUT went to holds the new value.
\<close>

theorem failed_forward_sends_no_reply:
  assumes "req_type r = OP_PUT" and "malloc_ok env" and "hash_put_ok env"
    and "key_server_id H (req_key r) (kv_num_servers st) = server_id st \<or>
         (kv_state st = KV_UPDATING_PRIMARY \<and>
          secondary_server_id (key_server_id H (req_key r) (kv_num_servers st))
            (kv_num_servers st) = server_id st)"
    and "forward env \<noteq> Forward_fd_invalid" and "forward env \<noteq> Forward_replied SUCCESS"
    and "secondary_as_primary =
           (kv_state st = KV_UPDATING_PRIMARY \<and>
            secondary_server_id (key_server_id H (req_key r) (kv_num_servers st))
              (kv_num_servers st) = server_id st)"
  shows
    "fst (process_client_message_srv H (Some r) env st) =
       [Peer_send (if secondary_as_primary then Primary_fd else Secondary_fd) r] \<and>
     Client_reply resp \<notin> set (fst (process_client_message_srv H (Some r) env st)) \<and>
     hash_get
       (if secondary_as_primary
        then secondary_hash (snd (process_client_message_srv H (Some r) env st))
        else primary_hash (snd (process_client_message_srv H (Some r) env st)))
       (req_key r) = Some (req_value r)"
proof (cases "forward env")
  case Forward_fd_invalid
  with assms(5) show ?thesis by simp
next
  case Forward_recv_failed
  with assms(1,2,3,4,7) show ?thesis
    by (auto simp: process_client_message_srv_def Let_def hash_put_def hash_get_insert)
next
  case (Forward_replied s)
  with assms(6) have "s \<noteq> SUCCESS" by simp
  with Forward_replied assms(1,2,3,4,7) show ?thesis
    by (auto simp: process_client_message_srv_def Let_def hash_put_def hash_get_insert)
qed

theorem failed_forward_sends_no_reply_witness:
  "req_type (example_put ''abc'' ''new'') = OP_PUT \<and>
   malloc_ok (example_put_env (Forward_replied OUT_OF_SPACE)) \<and>
   hash_put_ok (example_put_env (Forward_replied OUT_OF_SPACE)) \<and>
   key_server_id example_hash (req_key (example_put ''abc'' ''new''))
     (kv_num_servers (example_server 0 KV_SERVER_ONLINE [(''abc'', ''old'')] [])) =
     server_id (example_server 0 KV_SERVER_ONLINE [(''abc'', ''old'')] []) \<and>
   forward (example_put_env (Forward_replied OUT_OF_SPACE)) \<noteq> Forward_fd_invalid \<and>
   forward (example_put_env (Forward_replied OUT_OF_SPACE)) \<noteq> Forward_replied SUCCESS \<and>
   fst (process_client_message_srv example_hash (Some (example_put ''abc'' ''new''))
          (example_put_env (Forward_replied OUT_OF_SPACE))
          (example_server 0 KV_SERVER_ONLINE [(''abc'', ''old'')] [])) =
     [Peer_send Secondary_fd (example_put ''abc'' ''new'')] \<and>
   hash_get
     (primary_hash (snd
        (process_client_message_srv example_hash (Some (example_put ''abc'' ''new''))
           (example_put_env (Forward_replied OUT_OF_SPACE))
           (example_server 0 KV_SERVER_ONLINE [(''abc'', ''old'')] []))))
     ''abc'' = Some ''new''"
proof -
  let ?st = "example_server 0 KV_SERVER_ONLINE [(''abc'', ''old'')] []"
  let ?env = "example_put_env (Forward_replied OUT_OF_SPACE)"
  let ?r = "example_put ''abc'' ''new''"
  have h: "req_type ?r = OP_PUT" "malloc_ok ?env" "hash_put_ok ?env"
    "key_server_id example_hash (req_key ?r) (kv_num_servers ?st) = server_id ?st"
    "forward ?env \<noteq> Forward_fd_invalid" "forward ?env \<noteq> Forward_replied SUCCESS"
    by (simp_all add: example_put_def example_put_env_def example_server_def
          key_server_id_def example_hash_def)
  have f: "False = (kv_state ?st = KV_UPDATING_PRIMARY \<and>
            secondary_server_id (key_server_id example_hash (req_key ?r) (kv_num_servers ?st))
              (kv_num_servers ?st) = server_id ?st)"
    by (simp add: example_server_def)
  have k: "req_key ?r = ''abc''" "req_value ?r = ''new''"
    by (simp_all add: example_put_def)
  from failed_forward_sends_no_reply [OF h(1,2,3) disjI1 [OF h(4)] h(5,6) f] h k
  show ?thesis by simp
qed

section \<open>Streaming to a replacement\<close>

lemma send_table_task_sends_puts_only:
  "Peer_send fd r \<in> set (fst (send_table_task st)) \<Longrightarrow> req_type r = OP_PUT"
  by (auto simp: send_table_task_def send_table_iterator_f_def Let_def)

lemma send_table_task_one_put_per_entry:
  "fst (send_table_task st) =
     map (send_table_iterator_f st)
       (if send_primary st then primary_hash st else secondary_hash st) @
     [Mserver_send \<lparr>mreq_type = (if send_primary st then UPDATED_SECONDARY else UPDATED_PRIMARY),
                    mreq_server_id = server_id st\<rparr>]"
  by (simp add: send_table_task_def Let_def)

lemma peer_noop_closes:
  "req_type r = OP_NOOP \<Longrightarrow> process_server_message_srv H (Some r) env st = (False, [], st)"
  by (simp add: process_server_message_srv_def)

text \<open>
  Claim C4 at a failing input. Server 1 of three streams its secondary table, of two
  entries, to the replacement of server 0. It sends one PUT per entry on the connection
  to the replacement and then the confirmation to the metadata server; no
  \<open>OP_NOOP\<close> follows the last entry.
\<close>

theorem stream_ends_without_noop_at_input:
  "send_table_task (example_server 1 KV_UPDATING_PRIMARY [] [(''abc'', ''red''), (''def'', ''blue'')])
     = ([Peer_send Primary_fd (example_put ''abc'' ''red''),
         Peer_send Primary_fd (example_put ''def'' ''blue''),
         Mserver_send \<lparr>mreq_type = UPDATED_PRIMARY, mreq_server_id = 1\<rparr>],
        example_server 1 KV_SERVER_ONLINE [] [(''abc'', ''red''), (''def'', ''blue'')])"
  by (simp add: example_put_def server_eval)

end
